theory Spec2Isabelle
  imports Main
begin

section \<open>The persisted schema (db.ts)\<close>

text \<open>
  The four tables of \<^verbatim>\<open>initSchema\<close>. A table is the list of its rows in insertion
  order. Several row interfaces of the source share the field names \<^verbatim>\<open>id\<close>,
  \<^verbatim>\<open>task_id\<close> and \<^verbatim>\<open>created_at\<close>; the fields carry a table prefix here
  (\<open>t_\<close> tasks, \<open>a_\<close> task\_assignees, \<open>c_\<close> task\_comments, \<open>r_\<close> task\_results).
  The column \<^verbatim>\<open>status\<close> is \<^verbatim>\<open>TEXT\<close> without a check constraint, so it is a string
  here: the type \<^verbatim>\<open>TaskStatus\<close> exists at compile time only. Timestamps are the integers
  that \<^verbatim>\<open>Date.now()\<close> returns.
\<close>

record TaskRow =
  t_id :: string
  t_title :: string
  t_description :: "string option"
  t_status :: string
  t_created_at :: int
  t_updated_at :: int

record TaskAssigneeRow =
  a_task_id :: string
  a_agent_id :: string

record TaskCommentRow =
  c_id :: string
  c_task_id :: string
  c_author_id :: string
  c_author_type :: string
  c_author_name :: string
  c_content :: string
  c_created_at :: int

record TaskResultRow =
  r_id :: string
  r_task_id :: string
  r_agent_id :: string
  r_content :: string
  r_file_path :: "string option"
  r_created_at :: int

record db =
  tasks :: "TaskRow list"
  task_assignees :: "TaskAssigneeRow list"
  task_comments :: "TaskCommentRow list"
  task_results :: "TaskResultRow list"

definition empty_db :: db where
  "empty_db = \<lparr>tasks = [], task_assignees = [], task_comments = [], task_results = []\<rparr>"

text \<open>
  An \<^verbatim>\<open>INSERT\<close> that violates a primary key throws; the argument names the key.
  A function that can throw returns the store as the exception leaves it together with
  either the error (\<open>Inl\<close>) or its value (\<open>Inr\<close>): no statement of the source runs in a
  transaction, so the writes made before the throw stay.
\<close>

datatype sql_error = UniqueConstraintFailed string

definition insert_task :: "db \<Rightarrow> TaskRow \<Rightarrow> sql_error + db" where
  "insert_task d row =
     (if t_id row \<in> set (map t_id (tasks d))
      then Inl (UniqueConstraintFailed ''tasks.id'')
      else Inr (d\<lparr>tasks := tasks d @ [row]\<rparr>))"

definition insert_assignee :: "db \<Rightarrow> TaskAssigneeRow \<Rightarrow> sql_error + db" where
  "insert_assignee d row =
     (if (a_task_id row, a_agent_id row)
           \<in> set (map (\<lambda>r. (a_task_id r, a_agent_id r)) (task_assignees d))
      then Inl (UniqueConstraintFailed ''task_assignees.task_id, task_assignees.agent_id'')
      else Inr (d\<lparr>task_assignees := task_assignees d @ [row]\<rparr>))"

definition insert_comment :: "db \<Rightarrow> TaskCommentRow \<Rightarrow> sql_error + db" where
  "insert_comment d row =
     (if c_id row \<in> set (map c_id (task_comments d))
      then Inl (UniqueConstraintFailed ''task_comments.id'')
      else Inr (d\<lparr>task_comments := task_comments d @ [row]\<rparr>))"

definition insert_result :: "db \<Rightarrow> TaskResultRow \<Rightarrow> sql_error + db" where
  "insert_result d row =
     (if r_id row \<in> set (map r_id (task_results d))
      then Inl (UniqueConstraintFailed ''task_results.id'')
      else Inr (d\<lparr>task_results := task_results d @ [row]\<rparr>))"

subsection \<open>Tasks\<close>

text \<open>
  \<^verbatim>\<open>randomUUID()\<close> and \<^verbatim>\<open>Date.now()\<close> are inputs of the model: every function takes
  the identifier and the time it would draw as arguments (\<open>uid\<close>, \<open>now\<close>).
\<close>

fun insert_assignees :: "db \<Rightarrow> string \<Rightarrow> string list \<Rightarrow> db \<times> sql_error option" where
  "insert_assignees d tid [] = (d, None)"
| "insert_assignees d tid (agentId # rest) =
     (case insert_assignee d \<lparr>a_task_id = tid, a_agent_id = agentId\<rparr> of
        Inl e \<Rightarrow> (d, Some e)
      | Inr d' \<Rightarrow> insert_assignees d' tid rest)"

definition createTask ::
  "db \<Rightarrow> string \<Rightarrow> int \<Rightarrow> string \<Rightarrow> string option \<Rightarrow> string list \<Rightarrow> db \<times> (sql_error + TaskRow)" where
  "createTask d uid now title description assigneeIds =
     (let row = \<lparr>t_id = uid, t_title = title, t_description = description,
                 t_status = ''todo'', t_created_at = now, t_updated_at = now\<rparr>
      in case insert_task d row of
           Inl e \<Rightarrow> (d, Inl e)
         | Inr d1 \<Rightarrow>
             (case insert_assignees d1 uid assigneeIds of
                (d2, Some e) \<Rightarrow> (d2, Inl e)
              | (d2, None) \<Rightarrow> (d2, Inr row)))"

definition listTasks :: "db \<Rightarrow> TaskRow list" where
  "listTasks d = sort_key (\<lambda>t. - t_created_at t) (tasks d)"

definition getTask :: "db \<Rightarrow> string \<Rightarrow> TaskRow option" where
  "getTask d tid = find (\<lambda>t. t_id t = tid) (tasks d)"

definition updateTaskStatus :: "db \<Rightarrow> string \<Rightarrow> string \<Rightarrow> int \<Rightarrow> db \<times> bool" where
  "updateTaskStatus d tid status now =
     (d\<lparr>tasks := map (\<lambda>t. if t_id t = tid
                           then t\<lparr>t_status := status, t_updated_at := now\<rparr> else t) (tasks d)\<rparr>,
      filter (\<lambda>t. t_id t = tid) (tasks d) \<noteq> [])"

text \<open>
  \<^verbatim>\<open>deleteTask\<close> runs four \<^verbatim>\<open>DELETE\<close> statements one after the other.
  \<open>deleteTask_states\<close> lists the store after each of them, \<open>deleteTask\<close> returns the
  last one and whether the fourth statement changed a row.
\<close>

definition delete_assignees_of :: "db \<Rightarrow> string \<Rightarrow> db" where
  "delete_assignees_of d tid =
     d\<lparr>task_assignees := filter (\<lambda>r. a_task_id r \<noteq> tid) (task_assignees d)\<rparr>"

definition delete_comments_of :: "db \<Rightarrow> string \<Rightarrow> db" where
  "delete_comments_of d tid =
     d\<lparr>task_comments := filter (\<lambda>r. c_task_id r \<noteq> tid) (task_comments d)\<rparr>"

definition delete_results_of :: "db \<Rightarrow> string \<Rightarrow> db" where
  "delete_results_of d tid =
     d\<lparr>task_results := filter (\<lambda>r. r_task_id r \<noteq> tid) (task_results d)\<rparr>"

definition delete_task_row :: "db \<Rightarrow> string \<Rightarrow> db" where
  "delete_task_row d tid = d\<lparr>tasks := filter (\<lambda>t. t_id t \<noteq> tid) (tasks d)\<rparr>"

definition deleteTask_states :: "db \<Rightarrow> string \<Rightarrow> db list" where
  "deleteTask_states d tid =
     (let d1 = delete_assignees_of d tid;
          d2 = delete_comments_of d1 tid;
          d3 = delete_results_of d2 tid;
          d4 = delete_task_row d3 tid
      in [d1, d2, d3, d4])"

definition deleteTask :: "db \<Rightarrow> string \<Rightarrow> db \<times> bool" where
  "deleteTask d tid =
     (case deleteTask_states d tid of
        [d1, d2, d3, d4] \<Rightarrow> (d4, filter (\<lambda>t. t_id t = tid) (tasks d3) \<noteq> [])
      | _ \<Rightarrow> (d, False))"

subsection \<open>Assignees\<close>

text \<open>
  The query of \<^verbatim>\<open>getTaskAssignees\<close> has no \<^verbatim>\<open>ORDER BY\<close>, so SQL leaves the order of
  its rows open; the list here is in table order, and the statements below use it as the
  set of the task's assignees.
\<close>

definition getTaskAssignees :: "db \<Rightarrow> string \<Rightarrow> string list" where
  "getTaskAssignees d taskId =
     map a_agent_id (filter (\<lambda>r. a_task_id r = taskId) (task_assignees d))"

definition getTasksForAgent :: "db \<Rightarrow> string \<Rightarrow> TaskRow list" where
  "getTasksForAgent d agentId =
     sort_key (\<lambda>t. - t_created_at t)
       (concat (map (\<lambda>t. map (\<lambda>_. t)
                  (filter (\<lambda>ta. a_task_id ta = t_id t \<and> a_agent_id ta = agentId)
                     (task_assignees d)))
          (tasks d)))"

subsection \<open>Comments\<close>

definition addComment ::
  "db \<Rightarrow> string \<Rightarrow> int \<Rightarrow> string \<Rightarrow> string \<Rightarrow> string \<Rightarrow> string \<Rightarrow> string
     \<Rightarrow> db \<times> (sql_error + TaskCommentRow)" where
  "addComment d uid now taskId authorId authorType authorName content =
     (let row = \<lparr>c_id = uid, c_task_id = taskId, c_author_id = authorId,
                 c_author_type = authorType, c_author_name = authorName,
                 c_content = content, c_created_at = now\<rparr>
      in case insert_comment d row of
           Inl e \<Rightarrow> (d, Inl e)
         | Inr d' \<Rightarrow> (d', Inr row))"

definition getTaskComments :: "db \<Rightarrow> string \<Rightarrow> TaskCommentRow list" where
  "getTaskComments d taskId =
     sort_key c_created_at (filter (\<lambda>r. c_task_id r = taskId) (task_comments d))"

subsection \<open>Results\<close>

definition addTaskResult ::
  "db \<Rightarrow> string \<Rightarrow> int \<Rightarrow> string \<Rightarrow> string \<Rightarrow> string \<Rightarrow> string option
     \<Rightarrow> db \<times> (sql_error + TaskResultRow)" where
  "addTaskResult d uid now taskId agentId content filePath =
     (let row = \<lparr>r_id = uid, r_task_id = taskId, r_agent_id = agentId,
                 r_content = content, r_file_path = filePath, r_created_at = now\<rparr>
      in case insert_result d row of
           Inl e \<Rightarrow> (d, Inl e)
         | Inr d' \<Rightarrow> (d', Inr row))"

definition getTaskResults :: "db \<Rightarrow> string \<Rightarrow> TaskResultRow list" where
  "getTaskResults d taskId =
     sort_key r_created_at (filter (\<lambda>r. r_task_id r = taskId) (task_results d))"

text \<open>
  The correlated subquery of \<^verbatim>\<open>getLatestResultPerAgent\<close>: the ids of the rows of the
  same task and agent as \<open>row\<close>, newest first, cut to one. \<^verbatim>\<open>ORDER BY\<close> is a stable
  sort of the rows in table order; SQL leaves the order of rows with equal keys open.
\<close>

definition latest_id_of :: "db \<Rightarrow> TaskResultRow \<Rightarrow> string list" where
  "latest_id_of d row =
     take 1 (map r_id
       (sort_key (\<lambda>x. - r_created_at x)
          (filter (\<lambda>tr2. r_task_id tr2 = r_task_id row \<and> r_agent_id tr2 = r_agent_id row)
             (task_results d))))"

definition getLatestResultPerAgent :: "db \<Rightarrow> string \<Rightarrow> TaskResultRow list" where
  "getLatestResultPerAgent d taskId =
     sort_key r_created_at
       (filter (\<lambda>row. r_task_id row = taskId \<and> r_id row \<in> set (latest_id_of d row))
          (task_results d))"

section \<open>The MCP tool surface (mcp-server.ts)\<close>

text \<open>
  \<open>store\<close> is what \<^verbatim>\<open>agentIdStorage.getStore()\<close> returns while a request is handled:
  \<open>None\<close> outside \<^verbatim>\<open>agentIdStorage.run\<close>, the bound agent id inside.
\<close>

definition getCallerAgentId :: "string option \<Rightarrow> string" where
  "getCallerAgentId store = (case store of None \<Rightarrow> ''unknown'' | Some a \<Rightarrow> a)"

text \<open>
  \<^verbatim>\<open>getAgentName\<close> asks the fleet API. \<open>lookup agentId\<close> is the name the API gives,
  \<open>None\<close> when the request throws, times out, is not ok or carries no name.
\<close>

definition getAgentName :: "(string \<Rightarrow> string option) \<Rightarrow> string \<Rightarrow> string" where
  "getAgentName lookup agentId = (case lookup agentId of None \<Rightarrow> agentId | Some n \<Rightarrow> n)"

text \<open>
  What a tool call gives back. \<open>ToolError msg\<close> is the result with \<^verbatim>\<open>isError: true\<close>
  and the JSON \<^verbatim>\<open>{error: msg}\<close>; \<open>InvalidParams\<close> is the refusal of arguments that do
  not fit the tool's input schema, before the callback runs; \<open>ToolThrew\<close> is an exception
  leaving the callback. The other constructors carry the fields of the JSON text of a
  successful call.
\<close>

datatype tool_result =
    ToolError string
  | InvalidParams
  | ToolThrew sql_error
  | TasksText "TaskRow list"
  | TaskText TaskRow "string list" "TaskCommentRow list" "TaskResultRow list"
  | StatusText string string
  | ResultText string string string

definition task_not_found :: string where
  "task_not_found = ''Task not found''"

definition not_assigned :: string where
  "not_assigned = ''You are not assigned to this task''"

definition list_my_tasks :: "db \<Rightarrow> string option \<Rightarrow> tool_result" where
  "list_my_tasks d store = TasksText (getTasksForAgent d (getCallerAgentId store))"

definition get_task :: "db \<Rightarrow> string \<Rightarrow> tool_result" where
  "get_task d taskId =
     (case getTask d taskId of
        None \<Rightarrow> ToolError task_not_found
      | Some task \<Rightarrow>
          TaskText task (getTaskAssignees d taskId) (getTaskComments d taskId)
            (getTaskResults d taskId))"

text \<open>
  The callback of \<^verbatim>\<open>update_task_status\<close>. External inputs, in the order the callback
  draws them: \<open>now1\<close> for the status update, \<open>lookup\<close> for the agent's name, \<open>uid\<close> and
  \<open>now2\<close> for the comment. A request is handled to its end before the next one starts.
\<close>

definition update_task_status_handler ::
  "db \<Rightarrow> string option \<Rightarrow> (string \<Rightarrow> string option) \<Rightarrow> string \<Rightarrow> int \<Rightarrow> int
     \<Rightarrow> string \<Rightarrow> string \<Rightarrow> db \<times> tool_result" where
  "update_task_status_handler d store lookup uid now1 now2 taskId status =
     (let agentId = getCallerAgentId store in
      case getTask d taskId of
        None \<Rightarrow> (d, ToolError task_not_found)
      | Some task \<Rightarrow>
          if agentId \<notin> set (getTaskAssignees d taskId) then (d, ToolError not_assigned)
          else
            let d1 = fst (updateTaskStatus d taskId status now1);
                agentName = getAgentName lookup agentId;
                statusLabel = (if status = ''in_progress'' then ''started working on this task''
                               else ''submitted this task for review'')
            in case addComment d1 uid now2 taskId agentId ''agent'' agentName
                      (''[System] '' @ agentName @ '' '' @ statusLabel @ ''.'') of
                 (d2, Inl e) \<Rightarrow> (d2, ToolThrew e)
               | (d2, Inr _) \<Rightarrow> (d2, StatusText taskId status))"

text \<open>
  The tool as registered: the input schema \<^verbatim>\<open>z.enum(['in_progress', 'review'])\<close> is
  checked before the callback is called.
\<close>

definition update_task_status ::
  "db \<Rightarrow> string option \<Rightarrow> (string \<Rightarrow> string option) \<Rightarrow> string \<Rightarrow> int \<Rightarrow> int
     \<Rightarrow> string \<Rightarrow> string \<Rightarrow> db \<times> tool_result" where
  "update_task_status d store lookup uid now1 now2 taskId status =
     (if status = ''in_progress'' \<or> status = ''review''
      then update_task_status_handler d store lookup uid now1 now2 taskId status
      else (d, InvalidParams))"

text \<open>
  \<^verbatim>\<open>post_task_result\<close>: \<open>uidr\<close> and \<open>now1\<close> for the result row, \<open>now2\<close> for the status
  update, \<open>lookup\<close> for the name, \<open>uidc\<close> and \<open>now3\<close> for the comment. \<open>filePath\<close> is
  \<open>None\<close> when the argument is absent; an empty path is falsy in the comment's text.
\<close>

definition post_task_result ::
  "db \<Rightarrow> string option \<Rightarrow> (string \<Rightarrow> string option) \<Rightarrow> string \<Rightarrow> int \<Rightarrow> int \<Rightarrow> string \<Rightarrow> int
     \<Rightarrow> string \<Rightarrow> string \<Rightarrow> string option \<Rightarrow> db \<times> tool_result" where
  "post_task_result d store lookup uidr now1 now2 uidc now3 taskId content filePath =
     (let agentId = getCallerAgentId store in
      case getTask d taskId of
        None \<Rightarrow> (d, ToolError task_not_found)
      | Some task \<Rightarrow>
          if agentId \<notin> set (getTaskAssignees d taskId) then (d, ToolError not_assigned)
          else
            (case addTaskResult d uidr now1 taskId agentId content filePath of
               (d1, Inl e) \<Rightarrow> (d1, ToolThrew e)
             | (d1, Inr result) \<Rightarrow>
                 let d2 = fst (updateTaskStatus d1 taskId ''review'' now2);
                     agentName = getAgentName lookup agentId;
                     file = (case filePath of
                               None \<Rightarrow> []
                             | Some p \<Rightarrow> if p = [] then [] else '' (file: '' @ p @ '')'')
                 in case addComment d2 uidc now3 taskId agentId ''agent'' agentName
                           (''[System] '' @ agentName @ '' submitted a result'' @ file
                              @ ''. Task is now in review.'') of
                      (d3, Inl e) \<Rightarrow> (d3, ToolThrew e)
                    | (d3, Inr _) \<Rightarrow> (d3, ResultText (r_id result) taskId ''review'')))"

section \<open>The REST surface (rest-api.ts)\<close>

subsection \<open>Push helpers\<close>

text \<open>
  \<open>net agentId content\<close> tells whether the \<^verbatim>\<open>fetch\<close> of \<^verbatim>\<open>pushToAgent\<close> resolves;
  when it throws, the helper catches and logs a warning. A notification returns the pushes
  it attempted and the agents it warned about.
\<close>

definition pushToAgent :: "(string \<Rightarrow> string \<Rightarrow> bool) \<Rightarrow> string \<Rightarrow> string \<Rightarrow> string list" where
  "pushToAgent net agentId content = (if net agentId content then [] else [agentId])"

fun join_lines :: "string list \<Rightarrow> string" where
  "join_lines [] = []"
| "join_lines [l] = l"
| "join_lines (l # ls) = l @ CHR 0x0A # join_lines ls"

definition dq :: string where
  "dq = [CHR 0x22]"

definition assignment_content :: "string \<Rightarrow> string \<Rightarrow> string option \<Rightarrow> string" where
  "assignment_content taskId title description =
     join_lines
       ([''[New task assigned to you]'', ''Title: '' @ title]
        @ (case description of
             None \<Rightarrow> []
           | Some desc \<Rightarrow> if desc = [] then [] else [''Description: '' @ desc])
        @ [''taskId: '' @ taskId, [],
           ''Use get_task('' @ dq @ taskId @ dq @ '') to see details, then update_task_status(''
             @ dq @ taskId @ dq @ '', '' @ dq @ ''in_progress'' @ dq
             @ '') when you start, and post_task_result('' @ dq @ taskId @ dq
             @ '', yourResult) when done.''])"

definition notifyAssignees ::
  "(string \<Rightarrow> string \<Rightarrow> bool) \<Rightarrow> string \<Rightarrow> string list \<Rightarrow> string \<Rightarrow> string option
     \<Rightarrow> (string \<times> string) list \<times> string list" where
  "notifyAssignees net taskId assigneeIds title description =
     (let content = assignment_content taskId title description
      in (map (\<lambda>a. (a, content)) assigneeIds,
          concat (map (\<lambda>a. pushToAgent net a content) assigneeIds)))"

definition rejection_content :: "string \<Rightarrow> string \<Rightarrow> string \<Rightarrow> string" where
  "rejection_content taskId title fb =
     join_lines
       [''[Task returned for revision]'', ''Title: '' @ title, ''taskId: '' @ taskId, [],
        ''Feedback: '' @ fb, [],
        ''Please revise and call post_task_result('' @ dq @ taskId @ dq
          @ '', yourResult) again when done.'']"

definition notifyRejection ::
  "(string \<Rightarrow> string \<Rightarrow> bool) \<Rightarrow> string \<Rightarrow> string list \<Rightarrow> string \<Rightarrow> string
     \<Rightarrow> (string \<times> string) list \<times> string list" where
  "notifyRejection net taskId assigneeIds title fb =
     (let content = rejection_content taskId title fb
      in (map (\<lambda>a. (a, content)) assigneeIds,
          concat (map (\<lambda>a. pushToAgent net a content) assigneeIds)))"

subsection \<open>Enriched tasks\<close>

record task_list_entry =
  e_task :: TaskRow
  e_assignees :: "string list"
  e_lastResult :: "TaskResultRow option"

record task_detail =
  d_task :: TaskRow
  d_assignees :: "string list"
  d_comments :: "TaskCommentRow list"
  d_results :: "TaskResultRow list"

definition buildTaskList :: "db \<Rightarrow> task_list_entry list" where
  "buildTaskList d =
     map (\<lambda>task.
            let results = getTaskResults d (t_id task)
            in \<lparr>e_task = task, e_assignees = getTaskAssignees d (t_id task),
                e_lastResult = (if results = [] then None else Some (last results))\<rparr>)
       (listTasks d)"

definition buildTaskDetail :: "db \<Rightarrow> string \<Rightarrow> task_detail option" where
  "buildTaskDetail d taskId =
     (case getTask d taskId of
        None \<Rightarrow> None
      | Some task \<Rightarrow>
          Some \<lparr>d_task = task, d_assignees = getTaskAssignees d taskId,
                d_comments = getTaskComments d taskId, d_results = getTaskResults d taskId\<rparr>)"

subsection \<open>Routes\<close>

text \<open>
  A JSON response carries its status code; \<open>Uncaught e\<close> is an exception that leaves the
  route handler. A request body is \<open>None\<close> when \<^verbatim>\<open>c.req.json()\<close> throws; a field of a
  body is \<open>None\<close> when it is absent. A route returns the store, the response, the pushes
  it started and the warnings they logged.
\<close>

datatype json_body =
    ErrorJson string
  | TasksJson "task_list_entry list"
  | TaskJson TaskRow
  | DetailJson "task_detail option"
  | CommentJson TaskCommentRow
  | OkJson

datatype http_response = Json nat json_body | Uncaught sql_error

record rest_out =
  out_db :: db
  out_response :: http_response
  out_pushes :: "(string \<times> string) list"
  out_warnings :: "string list"

definition reply :: "db \<Rightarrow> http_response \<Rightarrow> rest_out" where
  "reply d r = \<lparr>out_db = d, out_response = r, out_pushes = [], out_warnings = []\<rparr>"

record post_tasks_body =
  body_title :: "string option"
  body_description :: "string option"
  body_assigneeIds :: "string list option"

record patch_status_body =
  body_action :: "string option"
  body_feedback :: "string option"

definition get_tasks :: "db \<Rightarrow> http_response" where
  "get_tasks d = Json 200 (TasksJson (buildTaskList d))"

definition post_tasks ::
  "db \<Rightarrow> post_tasks_body option \<Rightarrow> string \<Rightarrow> int \<Rightarrow> (string \<Rightarrow> string \<Rightarrow> bool) \<Rightarrow> rest_out" where
  "post_tasks d body uid now net =
     (case body of
        None \<Rightarrow> reply d (Json 400 (ErrorJson ''Invalid JSON''))
      | Some b \<Rightarrow>
          (case (body_title b, body_assigneeIds b) of
             (Some title, Some assigneeIds) \<Rightarrow>
               if title = [] \<or> assigneeIds = []
               then reply d (Json 400 (ErrorJson ''title and at least one assigneeId are required''))
               else
                 (case createTask d uid now title (body_description b) assigneeIds of
                    (d', Inl e) \<Rightarrow> reply d' (Uncaught e)
                  | (d', Inr task) \<Rightarrow>
                      (case notifyAssignees net (t_id task) assigneeIds (t_title task)
                              (t_description task) of
                         (pushes, warnings) \<Rightarrow>
                           \<lparr>out_db = d', out_response = Json 201 (TaskJson task),
                            out_pushes = pushes, out_warnings = warnings\<rparr>))
           | _ \<Rightarrow> reply d (Json 400 (ErrorJson ''title and at least one assigneeId are required''))))"

definition get_task_detail :: "db \<Rightarrow> string \<Rightarrow> http_response" where
  "get_task_detail d taskId =
     (case buildTaskDetail d taskId of
        None \<Rightarrow> Json 404 (ErrorJson task_not_found)
      | Some detail \<Rightarrow> Json 200 (DetailJson (Some detail)))"

text \<open>
  \<^verbatim>\<open>PATCH /tasks/:id/status\<close>: \<open>now1\<close> for the status update, \<open>uid\<close> and \<open>now2\<close> for
  the comment, \<open>net\<close> for the pushes of a rejection.
\<close>

definition patch_status ::
  "db \<Rightarrow> string \<Rightarrow> patch_status_body option \<Rightarrow> string \<Rightarrow> int \<Rightarrow> int
     \<Rightarrow> (string \<Rightarrow> string \<Rightarrow> bool) \<Rightarrow> rest_out" where
  "patch_status d taskId body uid now1 now2 net =
     (case getTask d taskId of
        None \<Rightarrow> reply d (Json 404 (ErrorJson task_not_found))
      | Some task \<Rightarrow>
          (case body of
             None \<Rightarrow> reply d (Json 400 (ErrorJson ''Invalid JSON''))
           | Some b \<Rightarrow>
               if body_action b \<noteq> Some ''approve'' \<and> body_action b \<noteq> Some ''reject''
               then reply d (Json 400 (ErrorJson
                      (''action must be '' @ dq @ ''approve'' @ dq @ '' or '' @ dq @ ''reject'' @ dq)))
               else if body_action b = Some ''approve'' then
                 (let d1 = fst (updateTaskStatus d taskId ''done'' now1) in
                  case addComment d1 uid now2 taskId ''human'' ''human'' ''Human''
                         ''[System] Task approved and marked as done.'' of
                    (d2, Inl e) \<Rightarrow> reply d2 (Uncaught e)
                  | (d2, Inr _) \<Rightarrow> reply d2 (Json 200 (DetailJson (buildTaskDetail d2 taskId))))
               else
                 (case body_feedback b of
                    None \<Rightarrow> reply d (Json 400 (ErrorJson ''feedback is required when rejecting''))
                  | Some fb \<Rightarrow>
                      if fb = []
                      then reply d (Json 400 (ErrorJson ''feedback is required when rejecting''))
                      else
                        (let d1 = fst (updateTaskStatus d taskId ''in_progress'' now1) in
                         case addComment d1 uid now2 taskId ''human'' ''human'' ''Human''
                                (''[Feedback] '' @ fb) of
                           (d2, Inl e) \<Rightarrow> reply d2 (Uncaught e)
                         | (d2, Inr _) \<Rightarrow>
                             (case notifyRejection net taskId (getTaskAssignees d2 taskId)
                                     (t_title task) fb of
                                (pushes, warnings) \<Rightarrow>
                                  \<lparr>out_db = d2,
                                   out_response = Json 200 (DetailJson (buildTaskDetail d2 taskId)),
                                   out_pushes = pushes, out_warnings = warnings\<rparr>)))))"

definition post_comment :: "db \<Rightarrow> string \<Rightarrow> string option option \<Rightarrow> string \<Rightarrow> int \<Rightarrow> rest_out" where
  "post_comment d taskId body uid now =
     (case getTask d taskId of
        None \<Rightarrow> reply d (Json 404 (ErrorJson task_not_found))
      | Some task \<Rightarrow>
          (case body of
             None \<Rightarrow> reply d (Json 400 (ErrorJson ''Invalid JSON''))
           | Some None \<Rightarrow> reply d (Json 400 (ErrorJson ''content is required''))
           | Some (Some content) \<Rightarrow>
               if content = [] then reply d (Json 400 (ErrorJson ''content is required''))
               else
                 (case addComment d uid now taskId ''human'' ''human'' ''Human'' content of
                    (d', Inl e) \<Rightarrow> reply d' (Uncaught e)
                  | (d', Inr comment) \<Rightarrow> reply d' (Json 201 (CommentJson comment)))))"

definition delete_task :: "db \<Rightarrow> string \<Rightarrow> rest_out" where
  "delete_task d taskId =
     (case deleteTask d taskId of
        (d', deleted) \<Rightarrow>
          if \<not> deleted then reply d' (Json 404 (ErrorJson task_not_found))
          else reply d' (Json 200 OkJson))"

section \<open>The store under a sequence of requests\<close>

text \<open>
  Every request that can write, with the external inputs its handler draws. The read-only
  routes and tools leave the store as it is.
\<close>

datatype request =
    PostTasks "post_tasks_body option" string int "string \<Rightarrow> string \<Rightarrow> bool"
  | PatchStatus string "patch_status_body option" string int int "string \<Rightarrow> string \<Rightarrow> bool"
  | PostComment string "string option option" string int
  | DeleteTask string
  | UpdateTaskStatus "string option" "string \<Rightarrow> string option" string int int string string
  | PostTaskResult "string option" "string \<Rightarrow> string option" string int int string int
      string string "string option"

fun step :: "db \<Rightarrow> request \<Rightarrow> db" where
  "step d (PostTasks body uid now net) = out_db (post_tasks d body uid now net)"
| "step d (PatchStatus taskId body uid now1 now2 net) =
     out_db (patch_status d taskId body uid now1 now2 net)"
| "step d (PostComment taskId body uid now) = out_db (post_comment d taskId body uid now)"
| "step d (DeleteTask taskId) = out_db (delete_task d taskId)"
| "step d (UpdateTaskStatus store lookup uid now1 now2 taskId status) =
     fst (update_task_status d store lookup uid now1 now2 taskId status)"
| "step d (PostTaskResult store lookup uidr now1 now2 uidc now3 taskId content filePath) =
     fst (post_task_result d store lookup uidr now1 now2 uidc now3 taskId content filePath)"

definition run :: "request list \<Rightarrow> db" where
  "run rs = foldl step empty_db rs"

text \<open>The invariants of the store: the four statuses, the primary keys, the references.\<close>

definition valid_status :: "string \<Rightarrow> bool" where
  "valid_status s =
     (s = ''todo'' \<or> s = ''in_progress'' \<or> s = ''review'' \<or> s = ''done'')"

definition status_ok :: "db \<Rightarrow> bool" where
  "status_ok d = list_all (\<lambda>t. valid_status (t_status t)) (tasks d)"

definition keys_ok :: "db \<Rightarrow> bool" where
  "keys_ok d =
     (distinct (map t_id (tasks d))
      \<and> distinct (map (\<lambda>r. (a_task_id r, a_agent_id r)) (task_assignees d))
      \<and> distinct (map c_id (task_comments d))
      \<and> distinct (map r_id (task_results d)))"

definition refs_ok :: "db \<Rightarrow> bool" where
  "refs_ok d =
     (list_all (\<lambda>r. getTask d (a_task_id r) \<noteq> None) (task_assignees d)
      \<and> list_all (\<lambda>r. getTask d (c_task_id r) \<noteq> None) (task_comments d)
      \<and> list_all (\<lambda>r. getTask d (r_task_id r) \<noteq> None) (task_results d))"

text \<open>
  The writes a handler is made of: \<open>writes d d'\<close> when \<open>d'\<close> comes from \<open>d\<close> by a
  sequence of inserts that pass their key check (a task row with one of the four
  statuses, a dependent row of a task that exists), status updates to one of the four
  statuses, and runs of \<^verbatim>\<open>deleteTask\<close>.
\<close>

inductive writes :: "db \<Rightarrow> db \<Rightarrow> bool" where
  w_refl: "writes d d"
| w_task: "insert_task d row = Inr d' \<Longrightarrow> valid_status (t_status row) \<Longrightarrow> writes d d'"
| w_assignee:
    "insert_assignee d row = Inr d' \<Longrightarrow> getTask d (a_task_id row) \<noteq> None \<Longrightarrow> writes d d'"
| w_comment:
    "insert_comment d row = Inr d' \<Longrightarrow> getTask d (c_task_id row) \<noteq> None \<Longrightarrow> writes d d'"
| w_result:
    "insert_result d row = Inr d' \<Longrightarrow> getTask d (r_task_id row) \<noteq> None \<Longrightarrow> writes d d'"
| w_status: "valid_status s \<Longrightarrow> writes d (fst (updateTaskStatus d tid s now))"
| w_delete: "writes d (fst (deleteTask d tid))"
| w_trans: "writes d d' \<Longrightarrow> writes d' d'' \<Longrightarrow> writes d d''"

section \<open>Sessions (startMcpServer)\<close>

text \<open>
  The session table maps a session id to the transport and the agent id bound to it. A
  request is its path, its method, the \<^verbatim>\<open>agent_id\<close> query parameter and the
  \<^verbatim>\<open>mcp-session-id\<close> header. The server answers by itself (\<open>Response\<close> with the status)
  or hands the request to a transport inside \<^verbatim>\<open>agentIdStorage.run\<close>
  (\<open>HandleRequest\<close> with the transport and the ambient agent id). What the transport then
  does is the SDK's: \<open>fresh\<close> names the transport object a request creates, and \<open>init\<close> is
  the session id it generates when it initialises a session while it handles the request
  (the callback \<^verbatim>\<open>onsessioninitialized\<close>), \<open>None\<close> when it does not.
\<close>

record mcp_request =
  q_pathname :: string
  q_method :: string
  q_agent_id :: "string option"
  q_session_id :: "string option"

record session =
  s_transport :: nat
  s_agentId :: string

datatype mcp_outcome = Response nat | HandleRequest nat string

text \<open>
  A rejection by the server itself: a response it builds with an error status. A request
  handed to a transport is not rejected by the server.
\<close>

definition is_rejection :: "mcp_outcome \<Rightarrow> bool" where
  "is_rejection out = (case out of Response code \<Rightarrow> 400 \<le> code | HandleRequest t a \<Rightarrow> False)"

definition agentIdFromUrl :: "mcp_request \<Rightarrow> string" where
  "agentIdFromUrl req = (case q_agent_id req of None \<Rightarrow> ''unknown'' | Some a \<Rightarrow> a)"

definition mcp_fetch ::
  "(string \<rightharpoonup> session) \<Rightarrow> mcp_request \<Rightarrow> nat \<Rightarrow> string option
     \<Rightarrow> (string \<rightharpoonup> session) \<times> mcp_outcome" where
  "mcp_fetch sessions req fresh init =
     (if q_pathname req \<noteq> ''/mcp'' then (sessions, Response 404)
      else
        (case (if q_session_id req = Some [] then None else q_session_id req) of
           None \<Rightarrow>
             ((case init of
                 None \<Rightarrow> sessions
               | Some sid \<Rightarrow> sessions(sid \<mapsto> \<lparr>s_transport = fresh, s_agentId = agentIdFromUrl req\<rparr>)),
              HandleRequest fresh (agentIdFromUrl req))
         | Some sessionId \<Rightarrow>
             if q_method req = ''DELETE'' then (sessions(sessionId := None), Response 204)
             else
               (case sessions sessionId of
                  Some s \<Rightarrow> (sessions, HandleRequest (s_transport s) (s_agentId s))
                | None \<Rightarrow>
                    ((case init of
                        None \<Rightarrow> sessions
                      | Some sid \<Rightarrow>
                          sessions(sid \<mapsto> \<lparr>s_transport = fresh, s_agentId = agentIdFromUrl req\<rparr>)),
                     HandleRequest fresh (agentIdFromUrl req)))))"

text \<open>\<^verbatim>\<open>transport.onclose\<close> of a transport whose session id is \<open>sid\<close>.\<close>

definition onclose :: "(string \<rightharpoonup> session) \<Rightarrow> string option \<Rightarrow> (string \<rightharpoonup> session)" where
  "onclose sessions sid =
     (case sid of
        None \<Rightarrow> sessions
      | Some s \<Rightarrow> if s = [] then sessions else sessions(s := None))"

text \<open>
  The tool calls a request can carry, with the external inputs their callbacks draw, and
  the callback each one runs under the ambient context \<open>store\<close>.
\<close>

datatype tool_call =
    CallListMyTasks
  | CallGetTask string
  | CallUpdateTaskStatus "string \<Rightarrow> string option" string int int string string
  | CallPostTaskResult "string \<Rightarrow> string option" string int int string int
      string string "string option"

fun run_tool :: "db \<Rightarrow> string option \<Rightarrow> tool_call \<Rightarrow> db \<times> tool_result" where
  "run_tool d store CallListMyTasks = (d, list_my_tasks d store)"
| "run_tool d store (CallGetTask taskId) = (d, get_task d taskId)"
| "run_tool d store (CallUpdateTaskStatus lookup uid now1 now2 taskId status) =
     update_task_status d store lookup uid now1 now2 taskId status"
| "run_tool d store (CallPostTaskResult lookup uidr now1 now2 uidc now3 taskId content filePath) =
     post_task_result d store lookup uidr now1 now2 uidc now3 taskId content filePath"

text \<open>
  What \<^verbatim>\<open>transport.handleRequest\<close> does with a request is the SDK's, not code of this
  repository, and is an input here: the transport refuses the request with a status,
  initialises a session under the id it generates (and calls \<^verbatim>\<open>onsessioninitialized\<close>),
  passes a tool call to its callback, or answers without a tool. \<open>sdk True\<close> is what
  the transport of a stored session does with the request, \<open>sdk False\<close> what a transport
  created for the request does.
\<close>

datatype transport_action = Refuse nat | InitSession string | RunTool tool_call | NoTool

text \<open>
  The SDK's contract for a transport that has initialised no session yet, as a transport
  created for the request is: it initialises a session (for an initialize request) or
  refuses the request with an error status; it runs no tool. The theorems that need the
  contract take it as a hypothesis on \<open>sdk False\<close>.
\<close>

definition new_transport_action :: "transport_action \<Rightarrow> bool" where
  "new_transport_action act =
     (case act of
        Refuse code \<Rightarrow> 400 \<le> code
      | InitSession sid \<Rightarrow> True
      | RunTool c \<Rightarrow> False
      | NoTool \<Rightarrow> False)"

text \<open>
  Whether the request is handed to the transport of a stored session: its session id is
  non-empty and in the table.
\<close>

definition live :: "(string \<rightharpoonup> session) \<Rightarrow> mcp_request \<Rightarrow> bool" where
  "live sessions req =
     (case q_session_id req of
        None \<Rightarrow> False
      | Some sessionId \<Rightarrow> sessionId \<noteq> [] \<and> sessions sessionId \<noteq> None)"

text \<open>
  A request to the MCP port, served to its end: the answer of \<open>mcp_fetch\<close> when the
  server answers by itself; otherwise what the transport does, a tool call running on
  the store under the ambient agent id of \<^verbatim>\<open>agentIdStorage.run\<close>. The table is the
  one \<open>mcp_fetch\<close> leaves: only a transport created for the request enters a session
  into it.
\<close>

datatype served = Answered nat | SessionOpened string | ToolReply tool_result | Replied

definition mcp_serve ::
  "(string \<rightharpoonup> session) \<Rightarrow> db \<Rightarrow> mcp_request \<Rightarrow> nat \<Rightarrow> (bool \<Rightarrow> transport_action)
     \<Rightarrow> (string \<rightharpoonup> session) \<times> db \<times> served" where
  "mcp_serve sessions d req fresh sdk =
     (let act = sdk (live sessions req);
          init = (case act of InitSession sid \<Rightarrow> Some sid | _ \<Rightarrow> None)
      in case mcp_fetch sessions req fresh init of
           (sessions', Response code) \<Rightarrow> (sessions', d, Answered code)
         | (sessions', HandleRequest t agentId) \<Rightarrow>
             (case act of
                Refuse code \<Rightarrow> (sessions', d, Answered code)
              | InitSession sid \<Rightarrow> (sessions', d, SessionOpened sid)
              | RunTool c \<Rightarrow>
                  (case run_tool d (Some agentId) c of
                     (d', r) \<Rightarrow> (sessions', d', ToolReply r))
              | NoTool \<Rightarrow> (sessions', d, Replied)))"

text \<open>
  What happens at the server between two requests: requests to the MCP port, transports
  closing, requests to the REST port. \<open>opened\<close> lists the session ids that transports
  generate in a sequence of events.
\<close>

datatype server_event =
    McpRequest mcp_request nat "bool \<Rightarrow> transport_action"
  | TransportClosed "string option"
  | RestRequest request

fun server_step :: "(string \<rightharpoonup> session) \<times> db \<Rightarrow> server_event \<Rightarrow> (string \<rightharpoonup> session) \<times> db" where
  "server_step (sessions, d) (McpRequest req fresh sdk) =
     (case mcp_serve sessions d req fresh sdk of (sessions', d', out) \<Rightarrow> (sessions', d'))"
| "server_step (sessions, d) (TransportClosed sid) = (onclose sessions sid, d)"
| "server_step (sessions, d) (RestRequest r) = (sessions, step d r)"

definition action_opens :: "transport_action \<Rightarrow> string list" where
  "action_opens act = (case act of InitSession sid \<Rightarrow> [sid] | _ \<Rightarrow> [])"

fun opened :: "server_event list \<Rightarrow> string list" where
  "opened [] = []"
| "opened (McpRequest req fresh sdk # evs) =
     action_opens (sdk True) @ action_opens (sdk False) @ opened evs"
| "opened (TransportClosed sid # evs) = opened evs"
| "opened (RestRequest r # evs) = opened evs"

section \<open>A tool call suspended at its await\<close>

text \<open>
  The callback of \<^verbatim>\<open>post_task_result\<close> awaits \<^verbatim>\<open>getAgentName\<close> between its status
  update and its comment, and the requests that arrive meanwhile are handled before it
  resumes. \<open>post_task_result_begin\<close> is the callback up to the await: it returns the
  answer when the callback ends before it (\<open>Inl\<close>), the inserted result row when the
  callback goes on (\<open>Inr\<close>). \<open>post_task_result_resume\<close> is the rest of the callback, on
  the store as it is when the name arrives.
\<close>

definition post_task_result_begin ::
  "db \<Rightarrow> string option \<Rightarrow> string \<Rightarrow> int \<Rightarrow> int \<Rightarrow> string \<Rightarrow> string \<Rightarrow> string option
     \<Rightarrow> db \<times> (tool_result + TaskResultRow)" where
  "post_task_result_begin d store uidr now1 now2 taskId content filePath =
     (let agentId = getCallerAgentId store in
      case getTask d taskId of
        None \<Rightarrow> (d, Inl (ToolError task_not_found))
      | Some task \<Rightarrow>
          if agentId \<notin> set (getTaskAssignees d taskId) then (d, Inl (ToolError not_assigned))
          else
            (case addTaskResult d uidr now1 taskId agentId content filePath of
               (d1, Inl e) \<Rightarrow> (d1, Inl (ToolThrew e))
             | (d1, Inr result) \<Rightarrow>
                 (fst (updateTaskStatus d1 taskId ''review'' now2), Inr result)))"

definition post_task_result_resume ::
  "db \<Rightarrow> string option \<Rightarrow> (string \<Rightarrow> string option) \<Rightarrow> string \<Rightarrow> int \<Rightarrow> string
     \<Rightarrow> string option \<Rightarrow> TaskResultRow \<Rightarrow> db \<times> tool_result" where
  "post_task_result_resume d store lookup uidc now3 taskId filePath result =
     (let agentId = getCallerAgentId store;
          agentName = getAgentName lookup agentId;
          file = (case filePath of
                    None \<Rightarrow> []
                  | Some p \<Rightarrow> if p = [] then [] else '' (file: '' @ p @ '')'')
      in case addComment d uidc now3 taskId agentId ''agent'' agentName
                (''[System] '' @ agentName @ '' submitted a result'' @ file
                   @ ''. Task is now in review.'') of
           (d3, Inl e) \<Rightarrow> (d3, ToolThrew e)
         | (d3, Inr _) \<Rightarrow> (d3, ResultText (r_id result) taskId ''review''))"

section \<open>Example stores\<close>

text \<open>
  A store with one task in status \<open>done\<close>, assigned to the agents \<open>a1\<close> and
  \<open>unknown\<close>, with one comment and three results: \<open>R1\<close> by \<open>a1\<close> at time 1, \<open>R3\<close> by
  \<open>a2\<close> at time 2 and \<open>R2\<close> by \<open>a1\<close> at time 3, inserted in that order.
\<close>

definition task1 :: TaskRow where
  "task1 = \<lparr>t_id = ''t1'', t_title = ''Write report'', t_description = None,
            t_status = ''done'', t_created_at = 0, t_updated_at = 5\<rparr>"

definition R1 :: TaskResultRow where
  "R1 = \<lparr>r_id = ''r1'', r_task_id = ''t1'', r_agent_id = ''a1'', r_content = ''first'',
         r_file_path = None, r_created_at = 1\<rparr>"

definition R2 :: TaskResultRow where
  "R2 = \<lparr>r_id = ''r2'', r_task_id = ''t1'', r_agent_id = ''a1'', r_content = ''second'',
         r_file_path = None, r_created_at = 3\<rparr>"

definition R3 :: TaskResultRow where
  "R3 = \<lparr>r_id = ''r3'', r_task_id = ''t1'', r_agent_id = ''a2'', r_content = ''other'',
         r_file_path = None, r_created_at = 2\<rparr>"

definition comment1 :: TaskCommentRow where
  "comment1 = \<lparr>c_id = ''c1'', c_task_id = ''t1'', c_author_id = ''human'',
               c_author_type = ''human'', c_author_name = ''Human'',
               c_content = ''hello'', c_created_at = 4\<rparr>"

definition db1 :: db where
  "db1 = \<lparr>tasks = [task1],
          task_assignees = [\<lparr>a_task_id = ''t1'', a_agent_id = ''a1''\<rparr>,
                            \<lparr>a_task_id = ''t1'', a_agent_id = ''unknown''\<rparr>],
          task_comments = [comment1],
          task_results = [R1, R3, R2]\<rparr>"

text \<open>
  A store that requests reach when one of them is handled during an await. \<open>db_created\<close>
  holds the task \<open>t1\<close> of agent \<open>a1\<close>. In \<open>db_orphan\<close>, \<open>a1\<close> has called
  \<^verbatim>\<open>post_task_result\<close> on \<open>t1\<close>, \<^verbatim>\<open>DELETE /tasks/t1\<close> was handled while the callback
  awaited the agent's name, and the callback has resumed and written its comment.
\<close>

definition db_created :: db where
  "db_created =
     run [PostTasks (Some \<lparr>body_title = Some ''Write report'', body_description = None,
                           body_assigneeIds = Some [''a1'']\<rparr>) ''t1'' 0 (\<lambda>a c. True)]"

definition db_orphan :: db where
  "db_orphan =
     (case post_task_result_begin db_created (Some ''a1'') ''r1'' 1 2 ''t1'' ''report'' None of
        (d1, Inl r) \<Rightarrow> d1
      | (d1, Inr result) \<Rightarrow>
          fst (post_task_result_resume (out_db (delete_task d1 ''t1''))
                 (Some ''a1'') (\<lambda>a. None) ''c1'' 3 ''t1'' None result))"

section \<open>Review decisions\<close>



section \<open>Agent tools\<close>

lemma find_status_update:
  "find (\<lambda>t. t_id t = tid')
     (map (\<lambda>t. if t_id t = tid then t\<lparr>t_status := s, t_updated_at := now\<rparr> else t) xs) =
   (if tid' = tid
    then map_option (\<lambda>t. t\<lparr>t_status := s, t_updated_at := now\<rparr>) (find (\<lambda>t. t_id t = tid) xs)
    else find (\<lambda>t. t_id t = tid') xs)"
  by (induction xs) auto

lemma getTask_updateTaskStatus:
  "getTask (fst (updateTaskStatus d tid s now)) tid' =
     (if tid' = tid
      then map_option (\<lambda>t. t\<lparr>t_status := s, t_updated_at := now\<rparr>) (getTask d tid)
      else getTask d tid')"
  unfolding getTask_def updateTaskStatus_def
  by (simp add: find_status_update)

lemma addComment_fresh:
  "uid \<notin> set (map c_id (task_comments d)) \<Longrightarrow>
   addComment d uid now taskId authorId authorType authorName content =
     (d\<lparr>task_comments := task_comments d @
          [\<lparr>c_id = uid, c_task_id = taskId, c_author_id = authorId,
            c_author_type = authorType, c_author_name = authorName,
            c_content = content, c_created_at = now\<rparr>]\<rparr>,
      Inr \<lparr>c_id = uid, c_task_id = taskId, c_author_id = authorId,
            c_author_type = authorType, c_author_name = authorName,
            c_content = content, c_created_at = now\<rparr>)"
  by (simp add: addComment_def insert_comment_def Let_def)

lemma addTaskResult_fresh:
  "uid \<notin> set (map r_id (task_results d)) \<Longrightarrow>
   addTaskResult d uid now taskId agentId content filePath =
     (d\<lparr>task_results := task_results d @
          [\<lparr>r_id = uid, r_task_id = taskId, r_agent_id = agentId,
            r_content = content, r_file_path = filePath, r_created_at = now\<rparr>]\<rparr>,
      Inr \<lparr>r_id = uid, r_task_id = taskId, r_agent_id = agentId,
            r_content = content, r_file_path = filePath, r_created_at = now\<rparr>)"
  by (simp add: addTaskResult_def insert_result_def Let_def)

text \<open>
  What \<^verbatim>\<open>post_task_result\<close> does for an assignee, as one equation: the store it leaves
  and the result it returns.
\<close>

lemma post_task_result_assignee:
  assumes "getTask d taskId = Some task"
    and "getCallerAgentId store \<in> set (getTaskAssignees d taskId)"
    and "uidr \<notin> set (map r_id (task_results d))"
    and "uidc \<notin> set (map c_id (task_comments d))"
  shows "post_task_result d store lookup uidr now1 now2 uidc now3 taskId content filePath =
     (d\<lparr>tasks := map (\<lambda>t. if t_id t = taskId
                            then t\<lparr>t_status := ''review'', t_updated_at := now2\<rparr> else t) (tasks d),
        task_results := task_results d @
          [\<lparr>r_id = uidr, r_task_id = taskId, r_agent_id = getCallerAgentId store,
            r_content = content, r_file_path = filePath, r_created_at = now1\<rparr>],
        task_comments := task_comments d @
          [\<lparr>c_id = uidc, c_task_id = taskId, c_author_id = getCallerAgentId store,
            c_author_type = ''agent'',
            c_author_name = getAgentName lookup (getCallerAgentId store),
            c_content = ''[System] '' @ getAgentName lookup (getCallerAgentId store)
               @ '' submitted a result''
               @ (case filePath of None \<Rightarrow> []
                  | Some p \<Rightarrow> if p = [] then [] else '' (file: '' @ p @ '')'')
               @ ''. Task is now in review.'',
            c_created_at = now3\<rparr>]\<rparr>,
      ResultText uidr taskId ''review'')"
proof -
  have g: "getTask (d\<lparr>task_results := task_results d @ [x]\<rparr>) taskId = Some task" for x
    using assms(1) by (simp add: getTask_def)
  show ?thesis
    using assms
    unfolding post_task_result_def
    by (simp add: Let_def addTaskResult_fresh addComment_fresh updateTaskStatus_def)
qed

lemma update_task_status_assignee:
  assumes "getTask d taskId = Some task"
    and "getCallerAgentId store \<in> set (getTaskAssignees d taskId)"
    and "status = ''in_progress'' \<or> status = ''review''"
    and "uid \<notin> set (map c_id (task_comments d))"
  shows "update_task_status d store lookup uid now1 now2 taskId status =
     (d\<lparr>tasks := map (\<lambda>t. if t_id t = taskId
                            then t\<lparr>t_status := status, t_updated_at := now1\<rparr> else t) (tasks d),
        task_comments := task_comments d @
          [\<lparr>c_id = uid, c_task_id = taskId, c_author_id = getCallerAgentId store,
            c_author_type = ''agent'',
            c_author_name = getAgentName lookup (getCallerAgentId store),
            c_content = ''[System] '' @ getAgentName lookup (getCallerAgentId store) @ '' ''
               @ (if status = ''in_progress'' then ''started working on this task''
                  else ''submitted this task for review'') @ ''.'',
            c_created_at = now2\<rparr>]\<rparr>,
      StatusText taskId status)"
  using assms
  unfolding update_task_status_def update_task_status_handler_def
  by (auto simp: Let_def addComment_fresh updateTaskStatus_def)

lemma getTask_db1: "getTask db1 ''t1'' = Some task1"
  by (simp add: getTask_def db1_def task1_def)

lemma getTaskAssignees_db1: "getTaskAssignees db1 ''t1'' = [''a1'', ''unknown'']"
  by (simp add: getTaskAssignees_def db1_def)

lemma result_ids_db1: "map r_id (task_results db1) = [''r1'', ''r3'', ''r2'']"
  by (simp add: db1_def R1_def R2_def R3_def)

lemma comment_ids_db1: "map c_id (task_comments db1) = [''c1'']"
  by (simp add: db1_def comment1_def)

text \<open>
  Claim C1. For an existing task \<open>T\<close> and an agent \<open>A\<close> among its assignees,
  \<^verbatim>\<open>post_task_result\<close> called by \<open>A\<close> succeeds (it returns the id of the new result and
  the status \<open>review\<close>), leaves \<open>T\<close> in status \<open>review\<close> whatever its status was, appends
  exactly one row to the results (for \<open>A\<close>, with the given content and file path) and
  exactly one comment, a system comment of \<open>T\<close>, and changes no other table. The
  identifiers drawn for the two rows are fresh, as those of \<^verbatim>\<open>randomUUID\<close> are.
\<close>

theorem post_task_result_review:
  assumes "getTask d taskId = Some T"
    and "A \<in> set (getTaskAssignees d taskId)"
    and "uidr \<notin> set (map r_id (task_results d))"
    and "uidc \<notin> set (map c_id (task_comments d))"
  shows "let r = post_task_result d (Some A) lookup uidr now1 now2 uidc now3 taskId content filePath
         in snd r = ResultText uidr taskId ''review''
       \<and> getTask (fst r) taskId = Some (T\<lparr>t_status := ''review'', t_updated_at := now2\<rparr>)
       \<and> task_results (fst r) = task_results d @
            [\<lparr>r_id = uidr, r_task_id = taskId, r_agent_id = A, r_content = content,
              r_file_path = filePath, r_created_at = now1\<rparr>]
       \<and> task_comments (fst r) = task_comments d @
            [\<lparr>c_id = uidc, c_task_id = taskId, c_author_id = A, c_author_type = ''agent'',
              c_author_name = getAgentName lookup A,
              c_content = ''[System] '' @ getAgentName lookup A @ '' submitted a result''
                 @ (case filePath of None \<Rightarrow> []
                    | Some p \<Rightarrow> if p = [] then [] else '' (file: '' @ p @ '')'')
                 @ ''. Task is now in review.'',
              c_created_at = now3\<rparr>]
       \<and> task_assignees (fst r) = task_assignees d
       \<and> map t_id (tasks (fst r)) = map t_id (tasks d)"
proof -
  define r where
    "r = post_task_result d (Some A) lookup uidr now1 now2 uidc now3 taskId content filePath"
  have caller: "getCallerAgentId (Some A) = A"
    by (simp add: getCallerAgentId_def)
  have eq: "r = (d\<lparr>tasks := map (\<lambda>t. if t_id t = taskId
                            then t\<lparr>t_status := ''review'', t_updated_at := now2\<rparr> else t) (tasks d),
        task_results := task_results d @
          [\<lparr>r_id = uidr, r_task_id = taskId, r_agent_id = A,
            r_content = content, r_file_path = filePath, r_created_at = now1\<rparr>],
        task_comments := task_comments d @
          [\<lparr>c_id = uidc, c_task_id = taskId, c_author_id = A,
            c_author_type = ''agent'', c_author_name = getAgentName lookup A,
            c_content = ''[System] '' @ getAgentName lookup A @ '' submitted a result''
               @ (case filePath of None \<Rightarrow> []
                  | Some p \<Rightarrow> if p = [] then [] else '' (file: '' @ p @ '')'')
               @ ''. Task is now in review.'',
            c_created_at = now3\<rparr>]\<rparr>,
      ResultText uidr taskId ''review'')"
    unfolding r_def
    using post_task_result_assignee [of d taskId T "Some A" uidr uidc lookup now1 now2 now3
        content filePath] assms(1-4)
    by (simp add: caller)
  have t: "getTask (fst r) taskId = Some (T\<lparr>t_status := ''review'', t_updated_at := now2\<rparr>)"
    using assms(1) unfolding eq getTask_def by (simp add: find_status_update)
  have ids: "map t_id (tasks (fst r)) = map t_id (tasks d)"
    unfolding eq by (simp add: comp_def if_distrib cong: if_cong)
  have "snd r = ResultText uidr taskId ''review''"
    and "task_results (fst r) = task_results d @
            [\<lparr>r_id = uidr, r_task_id = taskId, r_agent_id = A, r_content = content,
              r_file_path = filePath, r_created_at = now1\<rparr>]"
    and "task_comments (fst r) = task_comments d @
            [\<lparr>c_id = uidc, c_task_id = taskId, c_author_id = A, c_author_type = ''agent'',
              c_author_name = getAgentName lookup A,
              c_content = ''[System] '' @ getAgentName lookup A @ '' submitted a result''
                 @ (case filePath of None \<Rightarrow> []
                    | Some p \<Rightarrow> if p = [] then [] else '' (file: '' @ p @ '')'')
                 @ ''. Task is now in review.'',
              c_created_at = now3\<rparr>]"
    and "task_assignees (fst r) = task_assignees d"
    unfolding eq by simp_all
  with t ids show ?thesis
    unfolding Let_def r_def by blast
qed

theorem post_task_result_review_witness:
  "getTask db1 ''t1'' = Some task1 \<and> t_status task1 = ''done''
   \<and> ''a1'' \<in> set (getTaskAssignees db1 ''t1'')
   \<and> (let r = post_task_result db1 (Some ''a1'') (\<lambda>a. None) ''r4'' 10 11 ''c2'' 12 ''t1''
                 ''report'' (Some ''out.txt'')
      in snd r = ResultText ''r4'' ''t1'' ''review''
       \<and> getTask (fst r) ''t1'' = Some (task1\<lparr>t_status := ''review'', t_updated_at := 11\<rparr>)
       \<and> task_results (fst r)
           = [R1, R3, R2, \<lparr>r_id = ''r4'', r_task_id = ''t1'', r_agent_id = ''a1'',
                r_content = ''report'', r_file_path = Some ''out.txt'', r_created_at = 10\<rparr>]
       \<and> task_comments (fst r)
           = [comment1, \<lparr>c_id = ''c2'', c_task_id = ''t1'', c_author_id = ''a1'',
                c_author_type = ''agent'', c_author_name = ''a1'',
                c_content = ''[System] a1 submitted a result (file: out.txt). Task is now in review.'',
                c_created_at = 12\<rparr>])"
proof -
  have h2: "''a1'' \<in> set (getTaskAssignees db1 ''t1'')"
    by (simp add: getTaskAssignees_db1)
  have h3: "''r4'' \<notin> set (map r_id (task_results db1))"
    by (simp add: result_ids_db1)
  have h4: "''c2'' \<notin> set (map c_id (task_comments db1))"
    by (simp add: comment_ids_db1)
  have s: "t_status task1 = ''done''"
    by (simp add: task1_def)
  have tr: "task_results db1 = [R1, R3, R2]" and tc: "task_comments db1 = [comment1]"
    by (simp_all add: db1_def)
  show ?thesis
    using post_task_result_review [OF getTask_db1 h2 h3 h4, of "\<lambda>a. None" 10 11 12 "''report''"
        "Some ''out.txt''"] getTask_db1 h2 s
    by (simp add: tr tc getAgentName_def Let_def)
qed

text \<open>
  Claim C4. For an existing task \<open>T\<close> and a caller whose identity is not among the
  assignees of \<open>T\<close>, the callback of \<^verbatim>\<open>update_task_status\<close> and \<^verbatim>\<open>post_task_result\<close>
  both return the error \<open>You are not assigned to this task\<close>, and the store they leave
  is the store they found: no status change, no result, no comment. The registered tool
  \<^verbatim>\<open>update_task_status\<close> gives the same for a status its schema admits; for any other
  status it refuses the arguments, and leaves the store as it found it too.
\<close>

theorem non_assignee_forbidden:
  assumes "getTask d taskId = Some T"
    and "getCallerAgentId store \<notin> set (getTaskAssignees d taskId)"
  shows "update_task_status_handler d store lookup uid now1 now2 taskId status =
           (d, ToolError ''You are not assigned to this task'')
       \<and> update_task_status d store lookup uid now1 now2 taskId status =
           (d, if status = ''in_progress'' \<or> status = ''review''
               then ToolError ''You are not assigned to this task'' else InvalidParams)
       \<and> post_task_result d store lookup uidr now1 now2 uidc now3 taskId content filePath =
           (d, ToolError ''You are not assigned to this task'')"
  using assms
  unfolding update_task_status_def update_task_status_handler_def post_task_result_def
    not_assigned_def
  by (simp add: Let_def)

theorem non_assignee_forbidden_witness:
  "getTask db1 ''t1'' = Some task1
   \<and> getCallerAgentId (Some ''a2'') \<notin> set (getTaskAssignees db1 ''t1'')
   \<and> update_task_status db1 (Some ''a2'') (\<lambda>a. None) ''c2'' 10 11 ''t1'' ''review'' =
           (db1, ToolError ''You are not assigned to this task'')
   \<and> post_task_result db1 (Some ''a2'') (\<lambda>a. None) ''r4'' 10 11 ''c2'' 12 ''t1'' ''report'' None =
           (db1, ToolError ''You are not assigned to this task'')"
proof -
  have h2: "getCallerAgentId (Some ''a2'') \<notin> set (getTaskAssignees db1 ''t1'')"
    by (simp add: getTaskAssignees_db1 getCallerAgentId_def)
  show ?thesis
    using non_assignee_forbidden [OF getTask_db1 h2, of "\<lambda>a. None" "''c2''" 10 11 "''review''"
        "''r4''" "''c2''" 12 "''report''" None] getTask_db1 h2
    by simp
qed

section \<open>Rejection with feedback\<close>

lemma patch_status_reject:
  assumes "getTask d taskId = Some T"
    and "body_action b = Some ''reject''"
    and "body_feedback b = Some X"
    and "X \<noteq> []"
    and "uid \<notin> set (map c_id (task_comments d))"
  shows "patch_status d taskId (Some b) uid now1 now2 net =
     (let d' = d\<lparr>tasks := map (\<lambda>t. if t_id t = taskId
                       then t\<lparr>t_status := ''in_progress'', t_updated_at := now1\<rparr> else t) (tasks d),
                  task_comments := task_comments d @
                    [\<lparr>c_id = uid, c_task_id = taskId, c_author_id = ''human'',
                      c_author_type = ''human'', c_author_name = ''Human'',
                      c_content = ''[Feedback] '' @ X, c_created_at = now2\<rparr>]\<rparr>
      in \<lparr>out_db = d',
          out_response = Json 200 (DetailJson (buildTaskDetail d' taskId)),
          out_pushes = map (\<lambda>a. (a, rejection_content taskId (t_title T) X))
                         (getTaskAssignees d taskId),
          out_warnings = concat (map (\<lambda>a. pushToAgent net a
                             (rejection_content taskId (t_title T) X))
                           (getTaskAssignees d taskId))\<rparr>)"
  using assms
  unfolding patch_status_def
  by (simp add: Let_def addComment_fresh updateTaskStatus_def notifyRejection_def
      getTaskAssignees_def)

text \<open>
  Claim C6. For an existing task \<open>T\<close> and a non-empty feedback \<open>X\<close>, a reject decision
  sets the status of \<open>T\<close> to \<open>in_progress\<close>, appends exactly one comment, whose content is
  \<open>[Feedback] X\<close>, and starts one push of the rejection notice per assignee of \<open>T\<close>; the
  store and the response are the same whatever the pushes do (\<open>net\<close> against \<open>net'\<close>).
  The comment's identifier is fresh.
\<close>

theorem reject_with_feedback:
  assumes "getTask d taskId = Some T"
    and "body_action b = Some ''reject''"
    and "body_feedback b = Some X"
    and "X \<noteq> []"
    and "uid \<notin> set (map c_id (task_comments d))"
  shows "let r = patch_status d taskId (Some b) uid now1 now2 net;
             r' = patch_status d taskId (Some b) uid now1 now2 net'
         in getTask (out_db r) taskId = Some (T\<lparr>t_status := ''in_progress'', t_updated_at := now1\<rparr>)
          \<and> task_comments (out_db r) = task_comments d @
               [\<lparr>c_id = uid, c_task_id = taskId, c_author_id = ''human'',
                 c_author_type = ''human'', c_author_name = ''Human'',
                 c_content = ''[Feedback] '' @ X, c_created_at = now2\<rparr>]
          \<and> task_assignees (out_db r) = task_assignees d
          \<and> task_results (out_db r) = task_results d
          \<and> out_pushes r = map (\<lambda>a. (a, rejection_content taskId (t_title T) X))
                              (getTaskAssignees (out_db r) taskId)
          \<and> out_response r = Json 200 (DetailJson (buildTaskDetail (out_db r) taskId))
          \<and> out_db r' = out_db r \<and> out_response r' = out_response r
          \<and> out_pushes r' = out_pushes r"
proof -
  define d' where "d' = d\<lparr>tasks := map (\<lambda>t. if t_id t = taskId
                       then t\<lparr>t_status := ''in_progress'', t_updated_at := now1\<rparr> else t) (tasks d),
                  task_comments := task_comments d @
                    [\<lparr>c_id = uid, c_task_id = taskId, c_author_id = ''human'',
                      c_author_type = ''human'', c_author_name = ''Human'',
                      c_content = ''[Feedback] '' @ X, c_created_at = now2\<rparr>]\<rparr>"
  have t: "getTask d' taskId = Some (T\<lparr>t_status := ''in_progress'', t_updated_at := now1\<rparr>)"
    using assms(1) unfolding d'_def getTask_def by (simp add: find_status_update)
  have a: "getTaskAssignees d' taskId = getTaskAssignees d taskId"
    unfolding d'_def getTaskAssignees_def by simp
  have tabs: "task_assignees d' = task_assignees d" "task_results d' = task_results d"
    "task_comments d' = task_comments d @
               [\<lparr>c_id = uid, c_task_id = taskId, c_author_id = ''human'',
                 c_author_type = ''human'', c_author_name = ''Human'',
                 c_content = ''[Feedback] '' @ X, c_created_at = now2\<rparr>]"
    unfolding d'_def by simp_all
  have r: "out_db (patch_status d taskId (Some b) uid now1 now2 n) = d'"
    "out_response (patch_status d taskId (Some b) uid now1 now2 n)
       = Json 200 (DetailJson (buildTaskDetail d' taskId))"
    "out_pushes (patch_status d taskId (Some b) uid now1 now2 n)
       = map (\<lambda>a. (a, rejection_content taskId (t_title T) X)) (getTaskAssignees d taskId)"
    for n
    unfolding patch_status_reject [OF assms] d'_def Let_def by simp_all
  show ?thesis
    unfolding Let_def r a using t tabs by simp
qed

theorem reject_with_feedback_witness:
  "getTask db1 ''t1'' = Some task1
   \<and> (let r = patch_status db1 ''t1''
                (Some \<lparr>body_action = Some ''reject'', body_feedback = Some ''redo''\<rparr>)
                ''c2'' 6 7 (\<lambda>a c. False);
          r' = patch_status db1 ''t1''
                (Some \<lparr>body_action = Some ''reject'', body_feedback = Some ''redo''\<rparr>)
                ''c2'' 6 7 (\<lambda>a c. True)
      in getTask (out_db r) ''t1'' = Some (task1\<lparr>t_status := ''in_progress'', t_updated_at := 6\<rparr>)
       \<and> task_comments (out_db r) =
            [comment1,
             \<lparr>c_id = ''c2'', c_task_id = ''t1'', c_author_id = ''human'',
               c_author_type = ''human'', c_author_name = ''Human'',
               c_content = ''[Feedback] redo'', c_created_at = 7\<rparr>]
       \<and> map fst (out_pushes r) = [''a1'', ''unknown'']
       \<and> out_db r' = out_db r \<and> out_response r' = out_response r)"
proof -
  have h2: "body_action \<lparr>body_action = Some ''reject'', body_feedback = Some ''redo''\<rparr>
              = Some ''reject''"
    by simp
  have h3: "body_feedback \<lparr>body_action = Some ''reject'', body_feedback = Some ''redo''\<rparr>
              = Some ''redo''"
    by simp
  have h4: "''redo'' \<noteq> []"
    by simp
  have h5: "''c2'' \<notin> set (map c_id (task_comments db1))"
    by (simp add: comment_ids_db1)
  have tc: "task_comments db1 = [comment1]"
    by (simp add: db1_def)
  have ta: "task_assignees db1 = [\<lparr>a_task_id = ''t1'', a_agent_id = ''a1''\<rparr>,
                            \<lparr>a_task_id = ''t1'', a_agent_id = ''unknown''\<rparr>]"
    by (simp add: db1_def)
  show ?thesis
    using reject_with_feedback [OF getTask_db1 h2 h3 h4 h5, of 6 7 "\<lambda>a c. False" "\<lambda>a c. True"]
      getTask_db1
    by (simp add: Let_def tc ta getTaskAssignees_def comp_def)
qed

section \<open>Every handler is a sequence of checked writes\<close>

lemma insert_assignee_tasks: "insert_assignee d row = Inr d' \<Longrightarrow> tasks d' = tasks d"
  by (auto simp: insert_assignee_def split: if_splits)

lemma writes_insert_assignees:
  "getTask d tid \<noteq> None \<Longrightarrow> writes d (fst (insert_assignees d tid as))"
proof (induction as arbitrary: d)
  case Nil
  show ?case by (simp add: w_refl)
next
  case (Cons a as)
  show ?case
  proof (cases "insert_assignee d \<lparr>a_task_id = tid, a_agent_id = a\<rparr>")
    case (Inl e)
    then show ?thesis by (simp add: w_refl)
  next
    case (Inr d')
    have one: "writes d d'"
      using Cons.prems by (intro w_assignee [OF Inr]) simp
    have "getTask d' tid \<noteq> None"
      using Cons.prems insert_assignee_tasks [OF Inr] by (simp add: getTask_def)
    from Cons.IH [OF this] have "writes d' (fst (insert_assignees d' tid as))" .
    with one have "writes d (fst (insert_assignees d' tid as))"
      by (rule w_trans)
    then show ?thesis
      using Inr by simp
  qed
qed

lemma getTask_insert_task:
  "insert_task d row = Inr d' \<Longrightarrow> getTask d' (t_id row) \<noteq> None"
  by (auto simp: insert_task_def getTask_def find_None_iff split: if_splits)

lemma writes_createTask:
  "writes d (fst (createTask d uid now title description assigneeIds))"
proof (cases "insert_task d \<lparr>t_id = uid, t_title = title, t_description = description,
                 t_status = ''todo'', t_created_at = now, t_updated_at = now\<rparr>")
  case (Inl e)
  then show ?thesis by (simp add: createTask_def w_refl)
next
  case (Inr d1)
  have one: "writes d d1"
    by (rule w_task [OF Inr]) (simp add: valid_status_def)
  have "getTask d1 uid \<noteq> None"
    using getTask_insert_task [OF Inr] by simp
  then have "writes d1 (fst (insert_assignees d1 uid assigneeIds))"
    by (rule writes_insert_assignees)
  with one have "writes d (fst (insert_assignees d1 uid assigneeIds))"
    by (rule w_trans)
  then show ?thesis
    using Inr by (auto simp: createTask_def Let_def split: prod.splits option.splits)
qed

lemma writes_addComment:
  "getTask d taskId \<noteq> None \<Longrightarrow>
   writes d (fst (addComment d uid now taskId authorId authorType authorName content))"
proof (cases "insert_comment d \<lparr>c_id = uid, c_task_id = taskId, c_author_id = authorId,
                 c_author_type = authorType, c_author_name = authorName,
                 c_content = content, c_created_at = now\<rparr>")
  case (Inl e)
  then show ?thesis by (simp add: addComment_def w_refl)
next
  case (Inr d')
  assume "getTask d taskId \<noteq> None"
  then have "writes d d'"
    by (intro w_comment [OF Inr]) simp
  then show ?thesis using Inr by (simp add: addComment_def)
qed

lemma writes_addTaskResult:
  "getTask d taskId \<noteq> None \<Longrightarrow>
   writes d (fst (addTaskResult d uid now taskId agentId content filePath))"
proof (cases "insert_result d \<lparr>r_id = uid, r_task_id = taskId, r_agent_id = agentId,
                 r_content = content, r_file_path = filePath, r_created_at = now\<rparr>")
  case (Inl e)
  then show ?thesis by (simp add: addTaskResult_def w_refl)
next
  case (Inr d')
  assume "getTask d taskId \<noteq> None"
  then have "writes d d'"
    by (intro w_result [OF Inr]) simp
  then show ?thesis using Inr by (simp add: addTaskResult_def)
qed

lemma getTask_addTaskResult:
  "getTask (fst (addTaskResult d uid now taskId agentId content filePath)) tid = getTask d tid"
  by (simp add: addTaskResult_def insert_result_def getTask_def Let_def)

lemma writes_status_comment:
  assumes "getTask d taskId \<noteq> None" and "valid_status s"
  shows "writes d (fst (addComment (fst (updateTaskStatus d taskId s now1)) uid now2 taskId
                     authorId authorType authorName content))"
proof -
  have "getTask (fst (updateTaskStatus d taskId s now1)) taskId \<noteq> None"
    using assms(1) by (simp add: getTask_updateTaskStatus)
  then have "writes (fst (updateTaskStatus d taskId s now1))
               (fst (addComment (fst (updateTaskStatus d taskId s now1)) uid now2 taskId
                     authorId authorType authorName content))"
    by (rule writes_addComment)
  with w_status [OF assms(2)] show ?thesis
    by (rule w_trans)
qed

text \<open>The store each handler leaves, branch by branch.\<close>

lemma out_db_post_tasks:
  "out_db (post_tasks d body uid now net) =
     (case body of
        None \<Rightarrow> d
      | Some b \<Rightarrow>
          (case body_title b of
             None \<Rightarrow> d
           | Some title \<Rightarrow>
               (case body_assigneeIds b of
                  None \<Rightarrow> d
                | Some assigneeIds \<Rightarrow>
                    if title = [] \<or> assigneeIds = [] then d
                    else fst (createTask d uid now title (body_description b) assigneeIds))))"
  by (simp add: post_tasks_def reply_def split: option.splits prod.splits sum.splits)

lemma out_db_patch_status:
  "out_db (patch_status d taskId body uid now1 now2 net) =
     (case getTask d taskId of
        None \<Rightarrow> d
      | Some task \<Rightarrow>
          (case body of
             None \<Rightarrow> d
           | Some b \<Rightarrow>
               if body_action b = Some ''approve''
               then fst (addComment (fst (updateTaskStatus d taskId ''done'' now1)) uid now2 taskId
                      ''human'' ''human'' ''Human'' ''[System] Task approved and marked as done.'')
               else if body_action b = Some ''reject''
               then (case body_feedback b of
                       None \<Rightarrow> d
                     | Some fb \<Rightarrow>
                         if fb = [] then d
                         else fst (addComment (fst (updateTaskStatus d taskId ''in_progress'' now1))
                                uid now2 taskId ''human'' ''human'' ''Human'' (''[Feedback] '' @ fb)))
               else d))"
  by (simp add: patch_status_def reply_def Let_def split: option.splits prod.splits sum.splits)

lemma out_db_post_comment:
  "out_db (post_comment d taskId body uid now) =
     (case getTask d taskId of
        None \<Rightarrow> d
      | Some task \<Rightarrow>
          (case body of
             None \<Rightarrow> d
           | Some None \<Rightarrow> d
           | Some (Some content) \<Rightarrow>
               if content = [] then d
               else fst (addComment d uid now taskId ''human'' ''human'' ''Human'' content)))"
  by (simp add: post_comment_def reply_def split: option.splits prod.splits sum.splits)

lemma out_db_delete_task: "out_db (delete_task d taskId) = fst (deleteTask d taskId)"
  by (simp add: delete_task_def reply_def split: prod.splits)

lemma fst_update_task_status:
  "fst (update_task_status d store lookup uid now1 now2 taskId status) =
     (if (status = ''in_progress'' \<or> status = ''review'') \<and> getTask d taskId \<noteq> None
           \<and> getCallerAgentId store \<in> set (getTaskAssignees d taskId)
      then fst (addComment (fst (updateTaskStatus d taskId status now1)) uid now2 taskId
               (getCallerAgentId store) ''agent'' (getAgentName lookup (getCallerAgentId store))
               (''[System] '' @ getAgentName lookup (getCallerAgentId store) @ '' ''
                  @ (if status = ''in_progress'' then ''started working on this task''
                     else ''submitted this task for review'') @ ''.''))
      else d)"
  by (simp add: update_task_status_def update_task_status_handler_def Let_def
      split: option.splits prod.splits sum.splits)

lemma fst_post_task_result:
  "fst (post_task_result d store lookup uidr now1 now2 uidc now3 taskId content filePath) =
     (if getTask d taskId \<noteq> None \<and> getCallerAgentId store \<in> set (getTaskAssignees d taskId)
      then (case addTaskResult d uidr now1 taskId (getCallerAgentId store) content filePath of
              (d1, Inl e) \<Rightarrow> d1
            | (d1, Inr result) \<Rightarrow>
                fst (addComment (fst (updateTaskStatus d1 taskId ''review'' now2)) uidc now3 taskId
                  (getCallerAgentId store) ''agent''
                  (getAgentName lookup (getCallerAgentId store))
                  (''[System] '' @ getAgentName lookup (getCallerAgentId store)
                     @ '' submitted a result''
                     @ (case filePath of None \<Rightarrow> []
                        | Some p \<Rightarrow> if p = [] then [] else '' (file: '' @ p @ '')'')
                     @ ''. Task is now in review.'')))
      else d)"
proof (cases "getTask d taskId")
  case None
  then show ?thesis by (simp add: post_task_result_def)
next
  case (Some task)
  show ?thesis
  proof (cases "getCallerAgentId store \<in> set (getTaskAssignees d taskId)")
    case False
    with Some show ?thesis by (simp add: post_task_result_def Let_def)
  next
    case True
    obtain d1 res where a: "addTaskResult d uidr now1 taskId (getCallerAgentId store) content filePath
        = (d1, res)"
      by (cases "addTaskResult d uidr now1 taskId (getCallerAgentId store) content filePath")
    show ?thesis
    proof (cases res)
      case (Inl e)
      with Some True a show ?thesis by (simp add: post_task_result_def Let_def)
    next
      case (Inr result)
      with Some True a show ?thesis
        by (simp add: post_task_result_def Let_def split: prod.splits sum.splits)
    qed
  qed
qed

lemma writes_post_tasks: "writes d (out_db (post_tasks d body uid now net))"
  unfolding out_db_post_tasks
  by (simp add: w_refl writes_createTask split: option.splits)

lemma valid_status_literals:
  "valid_status ''todo''" "valid_status ''in_progress''" "valid_status ''review''"
  "valid_status ''done''"
  by (simp_all add: valid_status_def)

lemma writes_patch_status: "writes d (out_db (patch_status d taskId body uid now1 now2 net))"
  unfolding out_db_patch_status
  by (simp add: w_refl writes_status_comment valid_status_literals split: option.splits)

lemma writes_post_comment: "writes d (out_db (post_comment d taskId body uid now))"
  unfolding out_db_post_comment
  by (simp add: w_refl writes_addComment split: option.splits)

lemma writes_delete_task: "writes d (out_db (delete_task d taskId))"
  unfolding out_db_delete_task by (rule w_delete)

lemma writes_update_task_status:
  "writes d (fst (update_task_status d store lookup uid now1 now2 taskId status))"
proof -
  have "status = ''in_progress'' \<or> status = ''review'' \<Longrightarrow> valid_status status"
    by (auto simp: valid_status_def)
  then show ?thesis
    unfolding fst_update_task_status
    by (simp add: w_refl writes_status_comment)
qed

lemma writes_post_task_result:
  "writes d (fst (post_task_result d store lookup uidr now1 now2 uidc now3 taskId content filePath))"
proof (cases "getTask d taskId \<noteq> None
                \<and> getCallerAgentId store \<in> set (getTaskAssignees d taskId)")
  case False
  then show ?thesis
    unfolding fst_post_task_result by (auto simp: w_refl)
next
  case True
  obtain d1 res where a: "addTaskResult d uidr now1 taskId (getCallerAgentId store) content filePath
      = (d1, res)"
    by (cases "addTaskResult d uidr now1 taskId (getCallerAgentId store) content filePath")
  have w1: "writes d d1"
    using writes_addTaskResult [of d taskId uidr now1 "getCallerAgentId store" content filePath]
      True a by simp
  have ex1: "getTask d1 taskId \<noteq> None"
    using getTask_addTaskResult [of d uidr now1 taskId "getCallerAgentId store" content filePath
        taskId] True a by simp
  show ?thesis
  proof (cases res)
    case (Inl e)
    then show ?thesis
      unfolding fst_post_task_result using True a w1 by simp
  next
    case (Inr result)
    have "writes d1 (fst (addComment (fst (updateTaskStatus d1 taskId ''review'' now2)) uidc now3
            taskId au ty n c))" for au ty n c
      using ex1 by (simp add: writes_status_comment valid_status_literals)
    with w1 have "writes d (fst (addComment (fst (updateTaskStatus d1 taskId ''review'' now2))
            uidc now3 taskId au ty n c))" for au ty n c
      by (rule w_trans)
    then show ?thesis
      unfolding fst_post_task_result using True a Inr by simp
  qed
qed

lemma writes_step: "writes d (step d r)"
  by (cases r)
     (simp_all add: writes_post_tasks writes_patch_status writes_post_comment
        writes_delete_task writes_update_task_status writes_post_task_result)

lemma writes_foldl: "writes d (foldl step d rs)"
proof (induction rs arbitrary: d)
  case Nil
  show ?case by (simp add: w_refl)
next
  case (Cons r rs)
  have "writes d (step d r)" by (rule writes_step)
  moreover have "writes (step d r) (foldl step (step d r) rs)" by (rule Cons.IH)
  ultimately have "writes d (foldl step (step d r) rs)" by (rule w_trans)
  then show ?case by simp
qed

section \<open>Invariants of the store\<close>

lemma fst_deleteTask:
  "fst (deleteTask d tid) =
     d\<lparr>task_assignees := filter (\<lambda>r. a_task_id r \<noteq> tid) (task_assignees d),
       task_comments := filter (\<lambda>r. c_task_id r \<noteq> tid) (task_comments d),
       task_results := filter (\<lambda>r. r_task_id r \<noteq> tid) (task_results d),
       tasks := filter (\<lambda>t. t_id t \<noteq> tid) (tasks d)\<rparr>"
  by (simp add: deleteTask_def deleteTask_states_def Let_def delete_assignees_of_def
      delete_comments_of_def delete_results_of_def delete_task_row_def)

lemma insert_task_Inr:
  "insert_task d row = Inr d' \<Longrightarrow>
     d' = d\<lparr>tasks := tasks d @ [row]\<rparr> \<and> t_id row \<notin> set (map t_id (tasks d))"
  by (auto simp: insert_task_def split: if_splits)

lemma insert_assignee_Inr:
  "insert_assignee d row = Inr d' \<Longrightarrow>
     d' = d\<lparr>task_assignees := task_assignees d @ [row]\<rparr>
     \<and> (a_task_id row, a_agent_id row)
           \<notin> set (map (\<lambda>r. (a_task_id r, a_agent_id r)) (task_assignees d))"
  by (auto simp: insert_assignee_def split: if_splits)

lemma insert_comment_Inr:
  "insert_comment d row = Inr d' \<Longrightarrow>
     d' = d\<lparr>task_comments := task_comments d @ [row]\<rparr>
     \<and> c_id row \<notin> set (map c_id (task_comments d))"
  by (auto simp: insert_comment_def split: if_splits)

lemma insert_result_Inr:
  "insert_result d row = Inr d' \<Longrightarrow>
     d' = d\<lparr>task_results := task_results d @ [row]\<rparr>
     \<and> r_id row \<notin> set (map r_id (task_results d))"
  by (auto simp: insert_result_def split: if_splits)

lemma status_ok_iff:
  "status_ok d \<longleftrightarrow> (\<forall>t \<in> set (tasks d). valid_status (t_status t))"
  by (simp add: status_ok_def list_all_iff)

lemma writes_status_ok: "writes d d' \<Longrightarrow> status_ok d \<Longrightarrow> status_ok d'"
proof (induction rule: writes.induct)
  case (w_task d row d')
  then show ?case by (auto simp: status_ok_iff dest!: insert_task_Inr)
next
  case (w_assignee d row d')
  then show ?case by (auto simp: status_ok_iff dest!: insert_assignee_Inr)
next
  case (w_comment d row d')
  then show ?case by (auto simp: status_ok_iff dest!: insert_comment_Inr)
next
  case (w_result d row d')
  then show ?case by (auto simp: status_ok_iff dest!: insert_result_Inr)
next
  case (w_status s d tid now)
  then show ?case by (auto simp: status_ok_iff updateTaskStatus_def)
next
  case (w_delete d tid)
  then show ?case by (auto simp: status_ok_iff fst_deleteTask)
qed simp_all

lemma t_id_status_update:
  "t_id \<circ> (\<lambda>t. if t_id t = tid then t\<lparr>t_status := s, t_updated_at := now\<rparr> else t) = t_id"
  by (rule ext) simp

lemma writes_keys_ok: "writes d d' \<Longrightarrow> keys_ok d \<Longrightarrow> keys_ok d'"
proof (induction rule: writes.induct)
  case (w_task d row d')
  then show ?case by (auto simp: keys_ok_def dest!: insert_task_Inr)
next
  case (w_assignee d row d')
  then show ?case by (auto simp: keys_ok_def dest!: insert_assignee_Inr)
next
  case (w_comment d row d')
  then show ?case by (auto simp: keys_ok_def dest!: insert_comment_Inr)
next
  case (w_result d row d')
  then show ?case by (auto simp: keys_ok_def dest!: insert_result_Inr)
next
  case (w_status s d tid now)
  then show ?case by (simp add: keys_ok_def updateTaskStatus_def t_id_status_update)
next
  case (w_delete d tid)
  then show ?case by (simp add: keys_ok_def fst_deleteTask distinct_map_filter)
qed simp_all

lemma getTask_exists_iff: "getTask d tid \<noteq> None \<longleftrightarrow> tid \<in> set (map t_id (tasks d))"
  by (auto simp: getTask_def find_None_iff)

lemma refs_ok_iff:
  "refs_ok d \<longleftrightarrow>
     (\<forall>r \<in> set (task_assignees d). a_task_id r \<in> set (map t_id (tasks d)))
     \<and> (\<forall>r \<in> set (task_comments d). c_task_id r \<in> set (map t_id (tasks d)))
     \<and> (\<forall>r \<in> set (task_results d). r_task_id r \<in> set (map t_id (tasks d)))"
  unfolding refs_ok_def list_all_iff getTask_exists_iff by simp

lemma writes_refs_ok: "writes d d' \<Longrightarrow> refs_ok d \<Longrightarrow> refs_ok d'"
proof (induction rule: writes.induct)
  case (w_task d row d')
  then show ?case by (auto simp: refs_ok_iff dest!: insert_task_Inr)
next
  case (w_assignee d row d')
  from w_assignee.hyps(1) have d': "d' = d\<lparr>task_assignees := task_assignees d @ [row]\<rparr>"
    by (auto dest: insert_assignee_Inr)
  from w_assignee.hyps(2) have "a_task_id row \<in> set (map t_id (tasks d))"
    by (simp only: getTask_exists_iff)
  with w_assignee.prems show ?case
    unfolding refs_ok_iff d' by auto
next
  case (w_comment d row d')
  from w_comment.hyps(1) have d': "d' = d\<lparr>task_comments := task_comments d @ [row]\<rparr>"
    by (auto dest: insert_comment_Inr)
  from w_comment.hyps(2) have "c_task_id row \<in> set (map t_id (tasks d))"
    by (simp only: getTask_exists_iff)
  with w_comment.prems show ?case
    unfolding refs_ok_iff d' by auto
next
  case (w_result d row d')
  from w_result.hyps(1) have d': "d' = d\<lparr>task_results := task_results d @ [row]\<rparr>"
    by (auto dest: insert_result_Inr)
  from w_result.hyps(2) have "r_task_id row \<in> set (map t_id (tasks d))"
    by (simp only: getTask_exists_iff)
  with w_result.prems show ?case
    unfolding refs_ok_iff d' by auto
next
  case (w_status s d tid now)
  then show ?case by (simp add: refs_ok_iff updateTaskStatus_def t_id_status_update)
next
  case (w_delete d tid)
  then show ?case by (auto simp: refs_ok_iff fst_deleteTask)
qed simp_all

lemma run_status_ok: "status_ok (run rs)"
  unfolding run_def
  by (rule writes_status_ok [OF writes_foldl]) (simp add: status_ok_def empty_db_def)

lemma run_keys_ok: "keys_ok (run rs)"
  unfolding run_def
  by (rule writes_keys_ok [OF writes_foldl]) (simp add: keys_ok_def empty_db_def)

lemma run_refs_ok: "refs_ok (run rs)"
  unfolding run_def
  by (rule writes_refs_ok [OF writes_foldl]) (simp add: refs_ok_def empty_db_def)

text \<open>
  Claim C5. In every store reached from the empty one by any sequence of requests (task
  creation, review decisions, human comments, deletion, \<^verbatim>\<open>update_task_status\<close>,
  \<^verbatim>\<open>post_task_result\<close>, with arbitrary bodies, arguments and external inputs), the
  status of every task is one of \<open>todo\<close>, \<open>in_progress\<close>, \<open>review\<close>, \<open>done\<close>; and every
  single request keeps a store of that kind.
\<close>

theorem status_invariant:
  "(\<forall>t \<in> set (tasks (run rs)).
      t_status t \<in> {''todo'', ''in_progress'', ''review'', ''done''})
   \<and> (status_ok d \<longrightarrow> status_ok (step d r))"
proof -
  have "status_ok (run rs)" by (rule run_status_ok)
  then have "\<forall>t \<in> set (tasks (run rs)).
      t_status t \<in> {''todo'', ''in_progress'', ''review'', ''done''}"
    by (simp add: status_ok_iff valid_status_def)
  moreover have "status_ok d \<longrightarrow> status_ok (step d r)"
    using writes_status_ok [OF writes_step] by blast
  ultimately show ?thesis by blast
qed

theorem status_invariant_witness:
  "map t_status (tasks (run
      [PostTasks (Some \<lparr>body_title = Some ''Write report'', body_description = None,
                        body_assigneeIds = Some [''a1'']\<rparr>) ''t1'' 0 (\<lambda>a c. True),
       UpdateTaskStatus (Some ''a1'') (\<lambda>a. None) ''c1'' 1 2 ''t1'' ''in_progress'',
       UpdateTaskStatus (Some ''a1'') (\<lambda>a. None) ''c2'' 3 4 ''t1'' ''archived''])) = [''in_progress'']
   \<and> list_all (\<lambda>t. t_status t \<in> {''todo'', ''in_progress'', ''review'', ''done''})
        (tasks (run
      [PostTasks (Some \<lparr>body_title = Some ''Write report'', body_description = None,
                        body_assigneeIds = Some [''a1'']\<rparr>) ''t1'' 0 (\<lambda>a c. True),
       UpdateTaskStatus (Some ''a1'') (\<lambda>a. None) ''c1'' 1 2 ''t1'' ''in_progress'',
       UpdateTaskStatus (Some ''a1'') (\<lambda>a. None) ''c2'' 3 4 ''t1'' ''archived'']))
   \<and> status_ok db1
   \<and> status_ok (step db1 (PatchStatus ''t1''
        (Some \<lparr>body_action = Some ''reject'', body_feedback = Some ''redo''\<rparr>)
        ''c2'' 6 7 (\<lambda>a c. False)))"
proof -
  let ?rs = "[PostTasks (Some \<lparr>body_title = Some ''Write report'', body_description = None,
                        body_assigneeIds = Some [''a1'']\<rparr>) ''t1'' 0 (\<lambda>a c. True),
       UpdateTaskStatus (Some ''a1'') (\<lambda>a. None) ''c1'' 1 2 ''t1'' ''in_progress'',
       UpdateTaskStatus (Some ''a1'') (\<lambda>a. None) ''c2'' 3 4 ''t1'' ''archived'']"
  let ?r = "PatchStatus ''t1''
        (Some \<lparr>body_action = Some ''reject'', body_feedback = Some ''redo''\<rparr>)
        ''c2'' 6 7 (\<lambda>a c. False)"
  have ev: "map t_status (tasks (run ?rs)) = [''in_progress'']"
    by (simp add: run_def empty_db_def post_tasks_def createTask_def insert_task_def
        insert_assignee_def notifyAssignees_def update_task_status_def
        update_task_status_handler_def getTask_def getTaskAssignees_def getCallerAgentId_def
        getAgentName_def updateTaskStatus_def addComment_def insert_comment_def Let_def)
  have ok1: "status_ok db1"
    by (simp add: status_ok_def db1_def task1_def valid_status_def)
  from status_invariant [of ?rs db1 ?r]
  have a: "\<forall>t \<in> set (tasks (run ?rs)).
      t_status t \<in> {''todo'', ''in_progress'', ''review'', ''done''}"
    and b: "status_ok db1 \<longrightarrow> status_ok (step db1 ?r)"
    by blast+
  from a have "list_all (\<lambda>t. t_status t \<in> {''todo'', ''in_progress'', ''review'', ''done''})
        (tasks (run ?rs))"
    by (simp only: list_all_iff)
  moreover from b ok1 have "status_ok (step db1 ?r)" by blast
  ultimately show ?thesis using ev ok1 by blast
qed

section \<open>Deleting a task\<close>

lemma refs_ok_db1: "refs_ok db1"
  by (simp add: refs_ok_def getTask_def db1_def task1_def comment1_def R1_def R2_def R3_def)

lemma deleteTask_no_rows:
  assumes "getTask d tid = None"
    and "tid \<notin> set (map a_task_id (task_assignees d))"
    and "tid \<notin> set (map c_task_id (task_comments d))"
    and "tid \<notin> set (map r_task_id (task_results d))"
  shows "deleteTask d tid = (d, False)"
proof -
  have no: "tid \<notin> set (map t_id (tasks d))"
    using assms(1) getTask_exists_iff [of d tid] by simp
  have a: "filter (\<lambda>r. a_task_id r \<noteq> tid) (task_assignees d) = task_assignees d"
    and c: "filter (\<lambda>r. c_task_id r \<noteq> tid) (task_comments d) = task_comments d"
    and r: "filter (\<lambda>r. r_task_id r \<noteq> tid) (task_results d) = task_results d"
    using assms(2-4) unfolding filter_id_conv by auto
  have t: "filter (\<lambda>t. t_id t \<noteq> tid) (tasks d) = tasks d"
    and e: "filter (\<lambda>t. t_id t = tid) (tasks d) = []"
    using no unfolding filter_id_conv filter_empty_conv by auto
  show ?thesis
    by (simp add: deleteTask_def deleteTask_states_def Let_def delete_assignees_of_def
        delete_comments_of_def delete_results_of_def delete_task_row_def a c r t e)
qed

lemma refs_ok_no_rows:
  assumes "refs_ok d" and "getTask d tid = None"
  shows "tid \<notin> set (map a_task_id (task_assignees d))
       \<and> tid \<notin> set (map c_task_id (task_comments d))
       \<and> tid \<notin> set (map r_task_id (task_results d))"
proof -
  have "tid \<notin> set (map t_id (tasks d))"
    using assms(2) getTask_exists_iff [of d tid] by simp
  then show ?thesis
    using assms(1) unfolding refs_ok_iff by auto
qed

lemma snd_deleteTask:
  "snd (deleteTask d tid) \<longleftrightarrow> getTask d tid \<noteq> None"
proof -
  have "filter (\<lambda>t. t_id t = tid) (tasks d) \<noteq> [] \<longleftrightarrow> tid \<in> set (map t_id (tasks d))"
    unfolding filter_empty_conv by auto
  then show ?thesis
    unfolding getTask_exists_iff
    by (simp add: deleteTask_def deleteTask_states_def Let_def delete_assignees_of_def
        delete_comments_of_def delete_results_of_def delete_task_row_def)
qed

text \<open>
  The two halves of \<^verbatim>\<open>post_task_result\<close>, run one after the other with no request in
  between, are the callback.
\<close>

lemma post_task_result_split:
  "post_task_result d store lookup uidr now1 now2 uidc now3 taskId content filePath =
     (case post_task_result_begin d store uidr now1 now2 taskId content filePath of
        (d2, Inl r) \<Rightarrow> (d2, r)
      | (d2, Inr result) \<Rightarrow>
          post_task_result_resume d2 store lookup uidc now3 taskId filePath result)"
proof (cases "getTask d taskId")
  case None
  then show ?thesis
    by (simp add: post_task_result_def post_task_result_begin_def)
next
  case (Some task)
  show ?thesis
  proof (cases "getCallerAgentId store \<in> set (getTaskAssignees d taskId)")
    case False
    with Some show ?thesis
      by (simp add: post_task_result_def post_task_result_begin_def Let_def)
  next
    case True
    obtain d1 res where a: "addTaskResult d uidr now1 taskId (getCallerAgentId store) content filePath
        = (d1, res)"
      by (cases "addTaskResult d uidr now1 taskId (getCallerAgentId store) content filePath")
    show ?thesis
    proof (cases res)
      case (Inl e)
      with Some True a show ?thesis
        by (simp add: post_task_result_def post_task_result_begin_def Let_def)
    next
      case (Inr result)
      with Some True a show ?thesis
        by (simp add: post_task_result_def post_task_result_begin_def
            post_task_result_resume_def Let_def)
    qed
  qed
qed

text \<open>
  Claim C7, as the code has it. \<^verbatim>\<open>DELETE /tasks/:id\<close> runs its four statements in the
  order assignments, comments, results, task: the store after each statement differs from
  the one before in that table only, and the last one is the store the route leaves. In
  that store the rows that carry the id are gone from all four tables and every other row
  is kept in place; \<^verbatim>\<open>get_task\<close> on the id then gives \<open>Task not found\<close>. The route
  answers 200 with \<^verbatim>\<open>{ok: true}\<close> when the task existed and 404 when it did not, and
  starts no push. On an id without a task the store is the one before the request when
  no assignment, comment or result row carries the id; that is so in every store whose
  dependent rows belong to existing tasks (\<open>refs_ok\<close>), which \<open>run_refs_ok\<close> shows for
  the stores that requests handled one at a time reach. Rows left with the id of a task
  that is gone are deleted by the request all the same.
\<close>

theorem delete_task_cascade:
  "deleteTask_states d tid =
     [d\<lparr>task_assignees := filter (\<lambda>r. a_task_id r \<noteq> tid) (task_assignees d)\<rparr>,
      d\<lparr>task_assignees := filter (\<lambda>r. a_task_id r \<noteq> tid) (task_assignees d),
        task_comments := filter (\<lambda>r. c_task_id r \<noteq> tid) (task_comments d)\<rparr>,
      d\<lparr>task_assignees := filter (\<lambda>r. a_task_id r \<noteq> tid) (task_assignees d),
        task_comments := filter (\<lambda>r. c_task_id r \<noteq> tid) (task_comments d),
        task_results := filter (\<lambda>r. r_task_id r \<noteq> tid) (task_results d)\<rparr>,
      out_db (delete_task d tid)]
   \<and> out_db (delete_task d tid) =
       d\<lparr>task_assignees := filter (\<lambda>r. a_task_id r \<noteq> tid) (task_assignees d),
         task_comments := filter (\<lambda>r. c_task_id r \<noteq> tid) (task_comments d),
         task_results := filter (\<lambda>r. r_task_id r \<noteq> tid) (task_results d),
         tasks := filter (\<lambda>t. t_id t \<noteq> tid) (tasks d)\<rparr>
   \<and> get_task (out_db (delete_task d tid)) tid = ToolError ''Task not found''
   \<and> out_response (delete_task d tid) =
       (if getTask d tid = None then Json 404 (ErrorJson ''Task not found'')
        else Json 200 OkJson)
   \<and> out_pushes (delete_task d tid) = []
   \<and> out_warnings (delete_task d tid) = []
   \<and> (getTask d tid = None
        \<and> tid \<notin> set (map a_task_id (task_assignees d))
        \<and> tid \<notin> set (map c_task_id (task_comments d))
        \<and> tid \<notin> set (map r_task_id (task_results d))
      \<longrightarrow> out_db (delete_task d tid) = d)
   \<and> (getTask d tid = None \<and> refs_ok d \<longrightarrow> out_db (delete_task d tid) = d)"
proof -
  have db: "out_db (delete_task d tid) =
           d\<lparr>task_assignees := filter (\<lambda>r. a_task_id r \<noteq> tid) (task_assignees d),
             task_comments := filter (\<lambda>r. c_task_id r \<noteq> tid) (task_comments d),
             task_results := filter (\<lambda>r. r_task_id r \<noteq> tid) (task_results d),
             tasks := filter (\<lambda>t. t_id t \<noteq> tid) (tasks d)\<rparr>"
    by (simp add: out_db_delete_task fst_deleteTask)
  have states: "deleteTask_states d tid =
           [d\<lparr>task_assignees := filter (\<lambda>r. a_task_id r \<noteq> tid) (task_assignees d)\<rparr>,
            d\<lparr>task_assignees := filter (\<lambda>r. a_task_id r \<noteq> tid) (task_assignees d),
              task_comments := filter (\<lambda>r. c_task_id r \<noteq> tid) (task_comments d)\<rparr>,
            d\<lparr>task_assignees := filter (\<lambda>r. a_task_id r \<noteq> tid) (task_assignees d),
              task_comments := filter (\<lambda>r. c_task_id r \<noteq> tid) (task_comments d),
              task_results := filter (\<lambda>r. r_task_id r \<noteq> tid) (task_results d)\<rparr>,
            out_db (delete_task d tid)]"
    unfolding db
    by (simp add: deleteTask_states_def Let_def delete_assignees_of_def
        delete_comments_of_def delete_results_of_def delete_task_row_def)
  have "getTask (out_db (delete_task d tid)) tid = None"
    unfolding db by (simp add: getTask_def find_None_iff)
  then have gone: "get_task (out_db (delete_task d tid)) tid = ToolError ''Task not found''"
    by (simp add: get_task_def task_not_found_def)
  have resp: "out_response (delete_task d tid) =
       (if getTask d tid = None then Json 404 (ErrorJson ''Task not found'')
        else Json 200 OkJson)"
    using snd_deleteTask [of d tid]
    by (cases "deleteTask d tid") (auto simp: delete_task_def reply_def task_not_found_def)
  have quiet: "out_pushes (delete_task d tid) = []" "out_warnings (delete_task d tid) = []"
    by (cases "deleteTask d tid"; simp add: delete_task_def reply_def)+
  have same: "getTask d tid = None
        \<and> tid \<notin> set (map a_task_id (task_assignees d))
        \<and> tid \<notin> set (map c_task_id (task_comments d))
        \<and> tid \<notin> set (map r_task_id (task_results d))
      \<longrightarrow> out_db (delete_task d tid) = d"
    using deleteTask_no_rows [of d tid] by (auto simp: out_db_delete_task)
  have same': "getTask d tid = None \<and> refs_ok d \<longrightarrow> out_db (delete_task d tid) = d"
    using same refs_ok_no_rows [of d tid] by blast
  from states db gone resp quiet same same' show ?thesis
    by blast
qed

theorem delete_task_cascade_witness:
  "getTask db1 ''t1'' = Some task1
   \<and> deleteTask_states db1 ''t1'' =
        [\<lparr>tasks = [task1], task_assignees = [], task_comments = [comment1],
          task_results = [R1, R3, R2]\<rparr>,
         \<lparr>tasks = [task1], task_assignees = [], task_comments = [],
          task_results = [R1, R3, R2]\<rparr>,
         \<lparr>tasks = [task1], task_assignees = [], task_comments = [], task_results = []\<rparr>,
         empty_db]
   \<and> delete_task db1 ''t1'' =
        \<lparr>out_db = empty_db, out_response = Json 200 OkJson,
         out_pushes = [], out_warnings = []\<rparr>
   \<and> get_task (out_db (delete_task db1 ''t1'')) ''t1'' = ToolError ''Task not found''
   \<and> getTask db1 ''t2'' = None
   \<and> ''t2'' \<notin> set (map a_task_id (task_assignees db1))
   \<and> ''t2'' \<notin> set (map c_task_id (task_comments db1))
   \<and> ''t2'' \<notin> set (map r_task_id (task_results db1))
   \<and> refs_ok db1
   \<and> delete_task db1 ''t2'' =
        \<lparr>out_db = db1, out_response = Json 404 (ErrorJson ''Task not found''),
         out_pushes = [], out_warnings = []\<rparr>"
proof -
  have none: "getTask db1 ''t2'' = None"
    by (simp add: getTask_def db1_def task1_def)
  have rows: "t_id task1 = ''t1''" "c_task_id comment1 = ''t1''"
    "r_task_id R1 = ''t1''" "r_task_id R2 = ''t1''" "r_task_id R3 = ''t1''"
    by (simp_all add: task1_def comment1_def R1_def R2_def R3_def)
  have no: "''t2'' \<notin> set (map a_task_id (task_assignees db1))"
    "''t2'' \<notin> set (map c_task_id (task_comments db1))"
    "''t2'' \<notin> set (map r_task_id (task_results db1))"
    by (simp_all add: db1_def rows)
  note one = delete_task_cascade [of db1 "''t1''"]
  note two = delete_task_cascade [of db1 "''t2''"]
  have ev: "out_db (delete_task db1 ''t1'') = empty_db"
    using one by (simp add: db1_def empty_db_def rows)
  have st: "deleteTask_states db1 ''t1'' =
        [\<lparr>tasks = [task1], task_assignees = [], task_comments = [comment1],
          task_results = [R1, R3, R2]\<rparr>,
         \<lparr>tasks = [task1], task_assignees = [], task_comments = [],
          task_results = [R1, R3, R2]\<rparr>,
         \<lparr>tasks = [task1], task_assignees = [], task_comments = [], task_results = []\<rparr>,
         empty_db]"
    using one ev by (simp add: db1_def rows)
  have g1: "get_task (out_db (delete_task db1 ''t1'')) ''t1'' = ToolError ''Task not found''"
    using one by blast
  from one have "out_response (delete_task db1 ''t1'') =
       (if getTask db1 ''t1'' = None then Json 404 (ErrorJson ''Task not found'')
        else Json 200 OkJson)"
    and q1: "out_pushes (delete_task db1 ''t1'') = []"
      "out_warnings (delete_task db1 ''t1'') = []"
    by blast+
  then have r1: "out_response (delete_task db1 ''t1'') = Json 200 OkJson"
    by (simp add: getTask_db1)
  have full1: "delete_task db1 ''t1'' =
        \<lparr>out_db = empty_db, out_response = Json 200 OkJson,
         out_pushes = [], out_warnings = []\<rparr>"
    using ev r1 q1 by (cases "delete_task db1 ''t1''") simp
  from two have "out_response (delete_task db1 ''t2'') =
       (if getTask db1 ''t2'' = None then Json 404 (ErrorJson ''Task not found'')
        else Json 200 OkJson)"
    and q2: "out_pushes (delete_task db1 ''t2'') = []"
      "out_warnings (delete_task db1 ''t2'') = []"
    by blast+
  then have r2: "out_response (delete_task db1 ''t2'') = Json 404 (ErrorJson ''Task not found'')"
    by (simp add: none)
  from two none no have e2: "out_db (delete_task db1 ''t2'') = db1"
    by blast
  have full2: "delete_task db1 ''t2'' =
        \<lparr>out_db = db1, out_response = Json 404 (ErrorJson ''Task not found''),
         out_pushes = [], out_warnings = []\<rparr>"
    using e2 r2 q2 by (cases "delete_task db1 ''t2''") simp
  from getTask_db1 st full1 g1 none no refs_ok_db1 full2 show ?thesis
    by blast
qed

text \<open>
  The claim as the specification words it fails on a store that the code reaches.
  \<open>db_orphan\<close> holds no task and one comment of \<open>t1\<close>, written by the resumed callback
  after the task was deleted. \<^verbatim>\<open>DELETE /tasks/t1\<close> on it answers 404 and deletes the
  comment: the store it leaves is not the store it found.
\<close>

theorem delete_missing_task_changes_store:
  "db_orphan =
     \<lparr>tasks = [], task_assignees = [],
      task_comments =
        [\<lparr>c_id = ''c1'', c_task_id = ''t1'', c_author_id = ''a1'', c_author_type = ''agent'',
          c_author_name = ''a1'',
          c_content = ''[System] a1 submitted a result. Task is now in review.'',
          c_created_at = 3\<rparr>],
      task_results = []\<rparr>
   \<and> getTask db_orphan ''t1'' = None
   \<and> delete_task db_orphan ''t1'' =
       \<lparr>out_db = empty_db, out_response = Json 404 (ErrorJson ''Task not found''),
        out_pushes = [], out_warnings = []\<rparr>
   \<and> out_db (delete_task db_orphan ''t1'') \<noteq> db_orphan"
proof -
  have created: "db_created =
     \<lparr>tasks = [\<lparr>t_id = ''t1'', t_title = ''Write report'', t_description = None,
                t_status = ''todo'', t_created_at = 0, t_updated_at = 0\<rparr>],
      task_assignees = [\<lparr>a_task_id = ''t1'', a_agent_id = ''a1''\<rparr>],
      task_comments = [], task_results = []\<rparr>"
    by (simp add: db_created_def run_def empty_db_def post_tasks_def createTask_def
        insert_task_def insert_assignee_def notifyAssignees_def Let_def)
  have orphan: "db_orphan =
     \<lparr>tasks = [], task_assignees = [],
      task_comments =
        [\<lparr>c_id = ''c1'', c_task_id = ''t1'', c_author_id = ''a1'', c_author_type = ''agent'',
          c_author_name = ''a1'',
          c_content = ''[System] a1 submitted a result. Task is now in review.'',
          c_created_at = 3\<rparr>],
      task_results = []\<rparr>"
    unfolding db_orphan_def created
    by (simp add: post_task_result_begin_def post_task_result_resume_def getTask_def
        getTaskAssignees_def getCallerAgentId_def getAgentName_def addTaskResult_def
        insert_result_def updateTaskStatus_def addComment_def insert_comment_def
        out_db_delete_task fst_deleteTask Let_def)
  have none: "getTask db_orphan ''t1'' = None"
    unfolding orphan by (simp add: getTask_def)
  have del: "delete_task db_orphan ''t1'' =
       \<lparr>out_db = empty_db, out_response = Json 404 (ErrorJson ''Task not found''),
        out_pushes = [], out_warnings = []\<rparr>"
    unfolding orphan
    by (simp add: delete_task_def deleteTask_def deleteTask_states_def Let_def
        delete_assignees_of_def delete_comments_of_def delete_results_of_def
        delete_task_row_def reply_def task_not_found_def empty_db_def)
  have "out_db (delete_task db_orphan ''t1'') \<noteq> db_orphan"
    unfolding del unfolding orphan by (simp add: empty_db_def)
  with orphan none del show ?thesis
    by blast
qed

section \<open>Task creation\<close>

lemma find_append_case:
  "find P (xs @ ys) = (case find P xs of None \<Rightarrow> find P ys | Some x \<Rightarrow> Some x)"
  by (induction xs) auto

text \<open>
  Claim C9. Task creation is not atomic. When the list of assignees starts with the same
  agent id twice, the task row and the first assignee row are inserted, the second
  assignee insert violates the primary key of \<^verbatim>\<open>task_assignees\<close> and throws, the
  exception leaves \<^verbatim>\<open>POST /tasks\<close> (no response is built, no push is started), and the
  store keeps the task with one new assignee row. The task id is fresh.
\<close>

theorem create_task_not_atomic:
  assumes "uid \<notin> set (map t_id (tasks d))"
    and "(uid, a) \<notin> set (map (\<lambda>r. (a_task_id r, a_agent_id r)) (task_assignees d))"
    and "body_title b = Some title"
    and "title \<noteq> []"
    and "body_assigneeIds b = Some (a # a # rest)"
  shows "post_tasks d (Some b) uid now net =
           \<lparr>out_db = d\<lparr>tasks := tasks d @
                         [\<lparr>t_id = uid, t_title = title, t_description = body_description b,
                           t_status = ''todo'', t_created_at = now, t_updated_at = now\<rparr>],
                       task_assignees := task_assignees d @
                         [\<lparr>a_task_id = uid, a_agent_id = a\<rparr>]\<rparr>,
            out_response = Uncaught (UniqueConstraintFailed
                             ''task_assignees.task_id, task_assignees.agent_id''),
            out_pushes = [], out_warnings = []\<rparr>
       \<and> getTask (out_db (post_tasks d (Some b) uid now net)) uid =
           Some \<lparr>t_id = uid, t_title = title, t_description = body_description b,
                 t_status = ''todo'', t_created_at = now, t_updated_at = now\<rparr>
       \<and> getTaskAssignees (out_db (post_tasks d (Some b) uid now net)) uid =
           getTaskAssignees d uid @ [a]"
proof -
  have eq: "post_tasks d (Some b) uid now net =
           \<lparr>out_db = d\<lparr>tasks := tasks d @
                         [\<lparr>t_id = uid, t_title = title, t_description = body_description b,
                           t_status = ''todo'', t_created_at = now, t_updated_at = now\<rparr>],
                       task_assignees := task_assignees d @
                         [\<lparr>a_task_id = uid, a_agent_id = a\<rparr>]\<rparr>,
            out_response = Uncaught (UniqueConstraintFailed
                             ''task_assignees.task_id, task_assignees.agent_id''),
            out_pushes = [], out_warnings = []\<rparr>"
    using assms
    by (simp add: post_tasks_def createTask_def insert_task_def insert_assignee_def
        reply_def Let_def)
  have "find (\<lambda>t. t_id t = uid) (tasks d) = None"
    using assms(1) by (auto simp: find_None_iff)
  then have t: "getTask (out_db (post_tasks d (Some b) uid now net)) uid =
           Some \<lparr>t_id = uid, t_title = title, t_description = body_description b,
                 t_status = ''todo'', t_created_at = now, t_updated_at = now\<rparr>"
    unfolding eq by (simp add: getTask_def find_append_case)
  have as: "getTaskAssignees (out_db (post_tasks d (Some b) uid now net)) uid =
              getTaskAssignees d uid @ [a]"
    unfolding eq by (simp add: getTaskAssignees_def)
  show ?thesis
    using eq t as by simp
qed

theorem create_task_not_atomic_witness:
  "post_tasks empty_db
     (Some \<lparr>body_title = Some ''Write report'', body_description = None,
            body_assigneeIds = Some [''a1'', ''a1'']\<rparr>) ''t1'' 0 (\<lambda>a c. True) =
     \<lparr>out_db = \<lparr>tasks = [\<lparr>t_id = ''t1'', t_title = ''Write report'', t_description = None,
                          t_status = ''todo'', t_created_at = 0, t_updated_at = 0\<rparr>],
                task_assignees = [\<lparr>a_task_id = ''t1'', a_agent_id = ''a1''\<rparr>],
                task_comments = [], task_results = []\<rparr>,
      out_response = Uncaught (UniqueConstraintFailed
                       ''task_assignees.task_id, task_assignees.agent_id''),
      out_pushes = [], out_warnings = []\<rparr>"
proof -
  have h1: "''t1'' \<notin> set (map t_id (tasks empty_db))"
    and h2: "(''t1'', ''a1'')
       \<notin> set (map (\<lambda>r. (a_task_id r, a_agent_id r)) (task_assignees empty_db))"
    by (simp_all add: empty_db_def)
  have h3: "body_title \<lparr>body_title = Some ''Write report'', body_description = None,
            body_assigneeIds = Some [''a1'', ''a1'']\<rparr> = Some ''Write report''"
    and h5: "body_assigneeIds \<lparr>body_title = Some ''Write report'', body_description = None,
            body_assigneeIds = Some [''a1'', ''a1'']\<rparr> = Some (''a1'' # ''a1'' # [])"
    by simp_all
  have h4: "''Write report'' \<noteq> []"
    by simp
  show ?thesis
    using create_task_not_atomic [OF h1 h2 h3 h4 h5, of 0 "\<lambda>a c. True"]
    by (simp add: empty_db_def)
qed

section \<open>The latest result of each agent\<close>

lemma in_set_nonempty: "x \<in> set xs \<Longrightarrow> xs \<noteq> []"
  by auto

lemma sort_key_nonempty: "xs \<noteq> [] \<Longrightarrow> \<exists>y ys. sort_key f xs = y # ys"
proof -
  assume "xs \<noteq> []"
  then have "length (sort_key f xs) \<noteq> 0"
    by simp
  then show ?thesis
    by (cases "sort_key f xs") auto
qed

lemma hd_sort_key_least:
  assumes "xs \<noteq> []"
  shows "hd (sort_key f xs) \<in> set xs \<and> (\<forall>x \<in> set xs. f (hd (sort_key f xs)) \<le> f x)"
proof -
  obtain y ys where s: "sort_key f xs = y # ys"
    using sort_key_nonempty [OF assms] by blast
  have "sorted (map f (y # ys))"
    using sorted_sort_key [of f xs] by (simp only: s)
  then have least: "\<forall>z \<in> set ys. f y \<le> f z"
    by simp
  have "set xs = set (y # ys)"
    using set_sort [of f xs] by (simp only: s)
  with least show ?thesis
    by (auto simp: s)
qed

text \<open>
  A row of the table passes the subquery exactly when it is the first row of its group
  (same task, same agent) in the order newest first.
\<close>

lemma latest_id_of_member:
  assumes "distinct (map r_id (task_results d))"
    and "row \<in> set (task_results d)"
  shows "r_id row \<in> set (latest_id_of d row) \<longleftrightarrow>
         row = hd (sort_key (\<lambda>x. - r_created_at x)
                 (filter (\<lambda>tr2. r_task_id tr2 = r_task_id row \<and> r_agent_id tr2 = r_agent_id row)
                    (task_results d)))"
proof -
  let ?G = "filter (\<lambda>tr2. r_task_id tr2 = r_task_id row \<and> r_agent_id tr2 = r_agent_id row)
              (task_results d)"
  let ?S = "sort_key (\<lambda>x. - r_created_at x) ?G"
  have "row \<in> set ?G"
    using assms(2) by simp
  then have G: "?G \<noteq> []"
    by (rule in_set_nonempty)
  obtain y ys where s: "?S = y # ys"
    using sort_key_nonempty [OF G] by blast
  have y: "y = hd ?S"
    by (simp only: s list.sel)
  have "hd ?S \<in> set ?G"
    using hd_sort_key_least [OF G] by blast
  then have yin: "y \<in> set (task_results d)"
    unfolding y by simp
  have ids: "latest_id_of d row = [r_id y]"
    unfolding latest_id_of_def s by simp
  have inj: "inj_on r_id (set (task_results d))"
    using assms(1) by (simp add: distinct_map)
  have "r_id row = r_id y \<longleftrightarrow> row = y"
    using inj assms(2) yin by (auto dest: inj_onD)
  then show ?thesis
    unfolding ids y [symmetric] by simp
qed

lemma latest_rows:
  assumes "distinct (map r_id (task_results d))"
  shows "set (getLatestResultPerAgent d t) =
           {row \<in> set (task_results d). r_task_id row = t \<and>
              row = hd (sort_key (\<lambda>x. - r_created_at x)
                     (filter (\<lambda>tr2. r_task_id tr2 = t \<and> r_agent_id tr2 = r_agent_id row)
                        (task_results d)))}"
  unfolding getLatestResultPerAgent_def
  using latest_id_of_member [OF assms]
  by auto

lemma latest_is_newest:
  assumes "distinct (map r_id (task_results d))"
    and "row \<in> set (getLatestResultPerAgent d t)"
    and "x \<in> set (task_results d)"
    and "r_task_id x = t"
    and "r_agent_id x = r_agent_id row"
  shows "r_created_at x \<le> r_created_at row"
proof -
  let ?G = "filter (\<lambda>tr2. r_task_id tr2 = t \<and> r_agent_id tr2 = r_agent_id row) (task_results d)"
  have row: "row = hd (sort_key (\<lambda>x. - r_created_at x) ?G)"
    using assms(2) unfolding latest_rows [OF assms(1)] by simp
  have xin: "x \<in> set ?G"
    using assms(3-5) by simp
  then have ne: "?G \<noteq> []"
    by (rule in_set_nonempty)
  from hd_sort_key_least [OF ne, of "\<lambda>x. - r_created_at x"] xin
  have "- r_created_at (hd (sort_key (\<lambda>x. - r_created_at x) ?G)) \<le> - r_created_at x"
    by blast
  then show ?thesis
    using row by simp
qed

lemma latest_one_per_agent:
  assumes "distinct (map r_id (task_results d))"
  shows "distinct (map r_agent_id (getLatestResultPerAgent d t))"
proof -
  let ?F = "filter (\<lambda>row. r_task_id row = t \<and> r_id row \<in> set (latest_id_of d row))
              (task_results d)"
  have dist: "distinct (task_results d)"
    using assms by (simp add: distinct_map)
  have "inj_on r_agent_id (set (getLatestResultPerAgent d t))"
  proof (rule inj_onI)
    fix a b
    assume "a \<in> set (getLatestResultPerAgent d t)" "b \<in> set (getLatestResultPerAgent d t)"
      and "r_agent_id a = r_agent_id b"
    then show "a = b"
      unfolding latest_rows [OF assms] by simp
  qed
  then have "inj_on r_agent_id (set ?F)"
    by (simp add: getLatestResultPerAgent_def)
  moreover have "distinct ?F"
    using dist by simp
  ultimately have "distinct (map r_agent_id ?F)"
    by (simp add: distinct_map)
  then show ?thesis
    unfolding getLatestResultPerAgent_def
    by (simp add: distinct_map)
qed

lemma latest_every_agent:
  assumes "distinct (map r_id (task_results d))"
  shows "set (map r_agent_id (getLatestResultPerAgent d t)) =
         set (map r_agent_id (filter (\<lambda>row. r_task_id row = t) (task_results d)))"
proof
  show "set (map r_agent_id (getLatestResultPerAgent d t))
          \<subseteq> set (map r_agent_id (filter (\<lambda>row. r_task_id row = t) (task_results d)))"
    unfolding latest_rows [OF assms] set_map by auto
next
  show "set (map r_agent_id (filter (\<lambda>row. r_task_id row = t) (task_results d)))
          \<subseteq> set (map r_agent_id (getLatestResultPerAgent d t))"
  proof
    fix a
    assume "a \<in> set (map r_agent_id (filter (\<lambda>row. r_task_id row = t) (task_results d)))"
    then obtain row where row: "row \<in> set (task_results d)" "r_task_id row = t"
      "r_agent_id row = a"
      by auto
    let ?G = "filter (\<lambda>tr2. r_task_id tr2 = t \<and> r_agent_id tr2 = a) (task_results d)"
    let ?m = "hd (sort_key (\<lambda>x. - r_created_at x) ?G)"
    have "row \<in> set ?G"
      using row by simp
    then have "?G \<noteq> []"
      by (rule in_set_nonempty)
    then have "?m \<in> set ?G"
      using hd_sort_key_least by blast
    then have m: "?m \<in> set (task_results d)" "r_task_id ?m = t" "r_agent_id ?m = a"
      by simp_all
    then have "?m \<in> set (getLatestResultPerAgent d t)"
      unfolding latest_rows [OF assms] by simp
    then have "r_agent_id ?m \<in> r_agent_id ` set (getLatestResultPerAgent d t)"
      by (rule imageI)
    then show "a \<in> set (map r_agent_id (getLatestResultPerAgent d t))"
      by (simp only: set_map m(3))
  qed
qed

text \<open>
  Claim C2. \<^verbatim>\<open>getLatestResultPerAgent\<close> on a store whose result ids are distinct (the
  primary key of \<^verbatim>\<open>task_results\<close>; \<open>run_keys_ok\<close> has it for every reachable store).
  The agents of the returned rows are exactly the agents with a result row for the task,
  each agent occurs once, every returned row is a row of the table for that task and no
  row of the same task and agent is newer, and the rows come in ascending order of
  creation time. For the history \<open>R1\<close> (agent \<open>A\<close>, time \<open>t1\<close>), \<open>R3\<close> (agent \<open>B\<close>, time
  \<open>t2\<close>), \<open>R2\<close> (agent \<open>A\<close>, time \<open>t3\<close>) with \<open>t1 < t2 < t3\<close> the result is \<open>[R3, R2]\<close>.
  The function is a query: it takes the store and returns rows, and has no store to
  return.
\<close>

theorem latest_result_per_agent:
  assumes "distinct (map r_id (task_results d))"
  shows "set (map r_agent_id (getLatestResultPerAgent d t)) =
           set (map r_agent_id (filter (\<lambda>row. r_task_id row = t) (task_results d)))
       \<and> distinct (map r_agent_id (getLatestResultPerAgent d t))
       \<and> (\<forall>row \<in> set (getLatestResultPerAgent d t).
            row \<in> set (task_results d) \<and> r_task_id row = t
            \<and> (\<forall>x \<in> set (task_results d).
                  r_task_id x = t \<and> r_agent_id x = r_agent_id row
                  \<longrightarrow> r_created_at x \<le> r_created_at row))
       \<and> sorted (map r_created_at (getLatestResultPerAgent d t))
       \<and> (tx < ty \<and> ty < tz \<and> A \<noteq> B \<and> distinct [ix, iy, iz] \<longrightarrow>
            getLatestResultPerAgent
              \<lparr>tasks = ts, task_assignees = asg, task_comments = cs,
               task_results =
                 [\<lparr>r_id = ix, r_task_id = T, r_agent_id = A, r_content = cx,
                   r_file_path = fx, r_created_at = tx\<rparr>,
                  \<lparr>r_id = iz, r_task_id = T, r_agent_id = B, r_content = cz,
                   r_file_path = fz, r_created_at = ty\<rparr>,
                  \<lparr>r_id = iy, r_task_id = T, r_agent_id = A, r_content = cy,
                   r_file_path = fy, r_created_at = tz\<rparr>]\<rparr> T
            = [\<lparr>r_id = iz, r_task_id = T, r_agent_id = B, r_content = cz,
                r_file_path = fz, r_created_at = ty\<rparr>,
               \<lparr>r_id = iy, r_task_id = T, r_agent_id = A, r_content = cy,
                r_file_path = fy, r_created_at = tz\<rparr>])"
proof -
  have rows: "\<forall>row \<in> set (getLatestResultPerAgent d t).
            row \<in> set (task_results d) \<and> r_task_id row = t
            \<and> (\<forall>x \<in> set (task_results d).
                  r_task_id x = t \<and> r_agent_id x = r_agent_id row
                  \<longrightarrow> r_created_at x \<le> r_created_at row)"
  proof (intro ballI conjI impI)
    fix row
    assume "row \<in> set (getLatestResultPerAgent d t)"
    then show "row \<in> set (task_results d)" and "r_task_id row = t"
      by (simp_all add: getLatestResultPerAgent_def)
  next
    fix row x
    assume "row \<in> set (getLatestResultPerAgent d t)" "x \<in> set (task_results d)"
      "r_task_id x = t \<and> r_agent_id x = r_agent_id row"
    then show "r_created_at x \<le> r_created_at row"
      using latest_is_newest [OF assms, of row t x] by blast
  qed
  have ordered: "sorted (map r_created_at (getLatestResultPerAgent d t))"
    unfolding getLatestResultPerAgent_def by (rule sorted_sort_key)
  have example: "tx < ty \<and> ty < tz \<and> A \<noteq> B \<and> distinct [ix, iy, iz] \<longrightarrow>
            getLatestResultPerAgent
              \<lparr>tasks = ts, task_assignees = asg, task_comments = cs,
               task_results =
                 [\<lparr>r_id = ix, r_task_id = T, r_agent_id = A, r_content = cx,
                   r_file_path = fx, r_created_at = tx\<rparr>,
                  \<lparr>r_id = iz, r_task_id = T, r_agent_id = B, r_content = cz,
                   r_file_path = fz, r_created_at = ty\<rparr>,
                  \<lparr>r_id = iy, r_task_id = T, r_agent_id = A, r_content = cy,
                   r_file_path = fy, r_created_at = tz\<rparr>]\<rparr> T
            = [\<lparr>r_id = iz, r_task_id = T, r_agent_id = B, r_content = cz,
                r_file_path = fz, r_created_at = ty\<rparr>,
               \<lparr>r_id = iy, r_task_id = T, r_agent_id = A, r_content = cy,
                r_file_path = fy, r_created_at = tz\<rparr>]"
    by (auto simp: getLatestResultPerAgent_def latest_id_of_def)
  from latest_every_agent [OF assms, of t] latest_one_per_agent [OF assms, of t]
    rows ordered example
  show ?thesis by blast
qed

theorem latest_result_per_agent_witness:
  "distinct (map r_id (task_results db1))
   \<and> task_results db1 = [R1, R3, R2]
   \<and> getLatestResultPerAgent db1 ''t1'' = [R3, R2]
   \<and> set (map r_agent_id (getLatestResultPerAgent db1 ''t1'')) = {''a1'', ''a2''}
   \<and> distinct (map r_agent_id (getLatestResultPerAgent db1 ''t1''))
   \<and> sorted (map r_created_at (getLatestResultPerAgent db1 ''t1''))"
proof -
  have h: "distinct (map r_id (task_results db1))"
    by (simp add: result_ids_db1)
  have tr: "task_results db1 = [R1, R3, R2]"
    by (simp add: db1_def)
  note inst = latest_result_per_agent [OF h, where t = "''t1''" and tx = 1 and ty = 2
      and tz = 3 and A = "''a1''" and B = "''a2''" and ix = "''r1''"
      and iy = "''r2''" and iz = "''r3''" and T = "''t1''"
      and cx = "''first''" and cy = "''second''" and cz = "''other''"
      and fx = None and fy = None and fz = None
      and ts = "[task1]" and cs = "[comment1]"
      and asg = "[\<lparr>a_task_id = ''t1'', a_agent_id = ''a1''\<rparr>,
                 \<lparr>a_task_id = ''t1'', a_agent_id = ''unknown''\<rparr>]"]
  have pre: "(1::int) < 2 \<and> (2::int) < 3 \<and> ''a1'' \<noteq> ''a2'' \<and> distinct [''r1'', ''r2'', ''r3'']"
    by simp
  have ex: "getLatestResultPerAgent db1 ''t1'' = [R3, R2]"
    using inst pre unfolding db1_def R1_def R2_def R3_def by blast
  have agents: "set (map r_agent_id (getLatestResultPerAgent db1 ''t1'')) = {''a1'', ''a2''}"
    unfolding ex by (auto simp: R2_def R3_def)
  from inst have "distinct (map r_agent_id (getLatestResultPerAgent db1 ''t1''))"
    and "sorted (map r_created_at (getLatestResultPerAgent db1 ''t1''))"
    by blast+
  with h tr ex agents show ?thesis by blast
qed

section \<open>Callers without an identity\<close>

text \<open>
  Claim C10. A request with no bound caller identity is served as the agent
  \<open>unknown\<close>. \<^verbatim>\<open>getCallerAgentId\<close> gives \<open>unknown\<close> for an empty ambient context; a
  request that opens a session without the \<^verbatim>\<open>agent_id\<close> parameter is handed to its
  transport under \<open>unknown\<close>, the session it initialises is bound to \<open>unknown\<close>, and so
  is every later request on that session. No tool rejects such a caller:
  \<^verbatim>\<open>list_my_tasks\<close> lists the tasks of \<open>unknown\<close>, and on a task that has \<open>unknown\<close>
  among its assignees \<^verbatim>\<open>update_task_status\<close> and \<^verbatim>\<open>post_task_result\<close> succeed and
  change the task. The identifiers drawn are fresh.
\<close>

theorem unidentified_caller_is_unknown:
  assumes "store = None \<or> store = Some ''unknown''"
    and "getTask d taskId = Some T"
    and "''unknown'' \<in> set (getTaskAssignees d taskId)"
    and "status = ''in_progress'' \<or> status = ''review''"
    and "uid \<notin> set (map c_id (task_comments d))"
    and "uidr \<notin> set (map r_id (task_results d))"
    and "q_pathname req = ''/mcp''" and "q_agent_id req = None" and "q_session_id req = None"
    and "q_pathname req2 = ''/mcp''" and "q_method req2 \<noteq> ''DELETE''"
    and "q_session_id req2 = Some sid" and "sid \<noteq> []"
  shows "getCallerAgentId None = ''unknown''
       \<and> getCallerAgentId store = ''unknown''
       \<and> snd (mcp_fetch sessions req fresh init) = HandleRequest fresh ''unknown''
       \<and> fst (mcp_fetch sessions req fresh (Some sid)) sid
           = Some \<lparr>s_transport = fresh, s_agentId = ''unknown''\<rparr>
       \<and> snd (mcp_fetch (fst (mcp_fetch sessions req fresh (Some sid))) req2 fresh2 init2)
           = HandleRequest fresh ''unknown''
       \<and> list_my_tasks d store = TasksText (getTasksForAgent d ''unknown'')
       \<and> snd (update_task_status d store lookup uid now1 now2 taskId status)
           = StatusText taskId status
       \<and> getTask (fst (update_task_status d store lookup uid now1 now2 taskId status)) taskId
           = Some (T\<lparr>t_status := status, t_updated_at := now1\<rparr>)
       \<and> snd (post_task_result d store lookup uidr now1 now2 uid now3 taskId content filePath)
           = ResultText uidr taskId ''review''
       \<and> getTask (fst (post_task_result d store lookup uidr now1 now2 uid now3 taskId content
                         filePath)) taskId
           = Some (T\<lparr>t_status := ''review'', t_updated_at := now2\<rparr>)
       \<and> task_results (fst (post_task_result d store lookup uidr now1 now2 uid now3 taskId
                         content filePath))
           = task_results d @
               [\<lparr>r_id = uidr, r_task_id = taskId, r_agent_id = ''unknown'', r_content = content,
                 r_file_path = filePath, r_created_at = now1\<rparr>]"
proof -
  have caller: "getCallerAgentId store = ''unknown''"
    using assms(1) by (auto simp: getCallerAgentId_def)
  have c0: "getCallerAgentId None = ''unknown''"
    by (simp add: getCallerAgentId_def)
  have url: "agentIdFromUrl req = ''unknown''"
    using assms(8) by (simp add: agentIdFromUrl_def)
  have f1: "snd (mcp_fetch sessions req fresh init) = HandleRequest fresh ''unknown''"
    using assms(7,9) url by (simp add: mcp_fetch_def)
  have f2: "fst (mcp_fetch sessions req fresh (Some sid)) =
              sessions(sid \<mapsto> \<lparr>s_transport = fresh, s_agentId = ''unknown''\<rparr>)"
    using assms(7,9) url by (simp add: mcp_fetch_def)
  have f3: "snd (mcp_fetch (fst (mcp_fetch sessions req fresh (Some sid))) req2 fresh2 init2)
           = HandleRequest fresh ''unknown''"
    unfolding f2 using assms(10-13) by (simp add: mcp_fetch_def)
  have l: "list_my_tasks d store = TasksText (getTasksForAgent d ''unknown'')"
    by (simp add: list_my_tasks_def caller)
  have mem: "getCallerAgentId store \<in> set (getTaskAssignees d taskId)"
    using assms(3) by (simp add: caller)
  note u = update_task_status_assignee [OF assms(2) mem assms(4) assms(5),
      of lookup now1 now2]
  have u1: "snd (update_task_status d store lookup uid now1 now2 taskId status)
           = StatusText taskId status"
    unfolding u by simp
  have u2: "getTask (fst (update_task_status d store lookup uid now1 now2 taskId status)) taskId
           = Some (T\<lparr>t_status := status, t_updated_at := now1\<rparr>)"
    unfolding u using assms(2) by (simp add: getTask_def find_status_update)
  note p = post_task_result_assignee [OF assms(2) mem assms(6) assms(5),
      of lookup now1 now2 now3 content filePath]
  have p1: "snd (post_task_result d store lookup uidr now1 now2 uid now3 taskId content filePath)
           = ResultText uidr taskId ''review''"
    unfolding p by simp
  have p2: "getTask (fst (post_task_result d store lookup uidr now1 now2 uid now3 taskId content
                         filePath)) taskId
           = Some (T\<lparr>t_status := ''review'', t_updated_at := now2\<rparr>)"
    unfolding p using assms(2) by (simp add: getTask_def find_status_update)
  have p3: "task_results (fst (post_task_result d store lookup uidr now1 now2 uid now3 taskId
                         content filePath))
           = task_results d @
               [\<lparr>r_id = uidr, r_task_id = taskId, r_agent_id = ''unknown'', r_content = content,
                 r_file_path = filePath, r_created_at = now1\<rparr>]"
    unfolding p by (simp add: caller)
  from c0 caller f1 f2 f3 l u1 u2 p1 p2 p3 show ?thesis
    by simp
qed

theorem unidentified_caller_is_unknown_witness:
  "getTask db1 ''t1'' = Some task1
   \<and> ''unknown'' \<in> set (getTaskAssignees db1 ''t1'')
   \<and> snd (mcp_fetch Map.empty
        \<lparr>q_pathname = ''/mcp'', q_method = ''POST'', q_agent_id = None, q_session_id = None\<rparr>
        1 (Some ''s1'')) = HandleRequest 1 ''unknown''
   \<and> snd (mcp_fetch (fst (mcp_fetch Map.empty
        \<lparr>q_pathname = ''/mcp'', q_method = ''POST'', q_agent_id = None, q_session_id = None\<rparr>
        1 (Some ''s1'')))
        \<lparr>q_pathname = ''/mcp'', q_method = ''POST'', q_agent_id = Some ''a1'',
         q_session_id = Some ''s1''\<rparr> 2 None) = HandleRequest 1 ''unknown''
   \<and> snd (update_task_status db1 None (\<lambda>a. None) ''c2'' 10 11 ''t1'' ''in_progress'')
       = StatusText ''t1'' ''in_progress''
   \<and> getTask (fst (update_task_status db1 None (\<lambda>a. None) ''c2'' 10 11 ''t1'' ''in_progress''))
        ''t1'' = Some (task1\<lparr>t_status := ''in_progress'', t_updated_at := 10\<rparr>)
   \<and> snd (post_task_result db1 None (\<lambda>a. None) ''r4'' 10 11 ''c2'' 12 ''t1'' ''report'' None)
       = ResultText ''r4'' ''t1'' ''review''"
proof -
  have h1: "None = None \<or> None = Some ''unknown''"
    by simp
  have h3: "''unknown'' \<in> set (getTaskAssignees db1 ''t1'')"
    by (simp add: getTaskAssignees_db1)
  have h4: "''in_progress'' = ''in_progress'' \<or> ''in_progress'' = ''review''"
    by simp
  have h5: "''c2'' \<notin> set (map c_id (task_comments db1))"
    by (simp add: comment_ids_db1)
  have h6: "''r4'' \<notin> set (map r_id (task_results db1))"
    by (simp add: result_ids_db1)
  let ?req = "\<lparr>q_pathname = ''/mcp'', q_method = ''POST'', q_agent_id = None,
               q_session_id = None\<rparr>"
  let ?req2 = "\<lparr>q_pathname = ''/mcp'', q_method = ''POST'', q_agent_id = Some ''a1'',
                q_session_id = Some ''s1''\<rparr>"
  have h7: "q_pathname ?req = ''/mcp''" and h8: "q_agent_id ?req = None"
    and h9: "q_session_id ?req = None" and h10: "q_pathname ?req2 = ''/mcp''"
    and h11: "q_method ?req2 \<noteq> ''DELETE''" and h12: "q_session_id ?req2 = Some ''s1''"
    and h13: "''s1'' \<noteq> []"
    by simp_all
  note inst = unidentified_caller_is_unknown [OF h1 getTask_db1 h3 h4 h5 h6 h7 h8 h9 h10 h11
      h12 h13, where sessions = Map.empty and fresh = 1 and init = "Some ''s1''"
      and ?fresh2.0 = 2 and ?init2.0 = None and lookup = "\<lambda>a. None" and ?now1.0 = 10
      and ?now2.0 = 11 and ?now3.0 = 12 and content = "''report''" and filePath = None]
  from inst getTask_db1 h3 show ?thesis
    by blast
qed

section \<open>Terminated sessions\<close>

lemma mcp_fetch_keeps_absent:
  assumes "sessions s = None" and "init \<noteq> Some s"
  shows "fst (mcp_fetch sessions req fresh init) s = None"
  using assms by (auto simp: mcp_fetch_def split: option.splits if_splits)

lemma mcp_serve_table:
  "fst (mcp_serve sessions d req fresh sdk) =
     fst (mcp_fetch sessions req fresh
            (case sdk (live sessions req) of InitSession sid \<Rightarrow> Some sid | _ \<Rightarrow> None))"
  by (simp add: mcp_serve_def Let_def
      split: prod.splits mcp_outcome.splits transport_action.splits)

lemma action_opens_init:
  "s \<notin> set (action_opens act) \<Longrightarrow>
     (case act of InitSession sid \<Rightarrow> Some sid | _ \<Rightarrow> None) \<noteq> Some s"
  by (cases act) (simp_all add: action_opens_def)

lemma server_step_absent:
  assumes "fst st s = None" and "s \<notin> set (opened [ev])"
  shows "fst (server_step st ev) s = None"
proof (cases st)
  case (Pair sessions d)
  show ?thesis
  proof (cases ev)
    case (McpRequest req fresh sdk)
    have "s \<notin> set (action_opens (sdk (live sessions req)))"
      using assms(2) McpRequest by (cases "live sessions req") simp_all
    then have "(case sdk (live sessions req) of InitSession sid \<Rightarrow> Some sid | _ \<Rightarrow> None)
                 \<noteq> Some s"
      by (rule action_opens_init)
    with assms(1) Pair have absent: "fst (mcp_serve sessions d req fresh sdk) s = None"
      unfolding mcp_serve_table by (simp add: mcp_fetch_keeps_absent)
    obtain sessions' d' out where eq: "mcp_serve sessions d req fresh sdk = (sessions', d', out)"
      by (cases "mcp_serve sessions d req fresh sdk")
    show ?thesis
      using absent unfolding Pair McpRequest by (simp add: eq)
  next
    case (TransportClosed sid)
    then show ?thesis
      using assms(1) Pair by (simp add: onclose_def split: option.splits)
  next
    case (RestRequest r)
    then show ?thesis
      using assms(1) Pair by simp
  qed
qed

lemma opened_Cons:
  "s \<notin> set (opened (ev # evs)) \<Longrightarrow> s \<notin> set (opened [ev]) \<and> s \<notin> set (opened evs)"
  by (cases ev) simp_all

lemma server_steps_absent:
  "fst st s = None \<Longrightarrow> s \<notin> set (opened evs) \<Longrightarrow> fst (foldl server_step st evs) s = None"
proof (induction evs arbitrary: st)
  case Nil
  then show ?case by simp
next
  case (Cons ev evs)
  from opened_Cons [OF Cons.prems(2)]
  have one: "s \<notin> set (opened [ev])" and rest: "s \<notin> set (opened evs)"
    by blast+
  have "fst (server_step st ev) s = None"
    using Cons.prems(1) one by (rule server_step_absent)
  with rest have "fst (foldl server_step (server_step st ev) evs) s = None"
    using Cons.IH [of "server_step st ev"] by blast
  then show ?case
    by simp
qed

text \<open>
  A request that carries a token absent from the table, served on any store: the server
  answers it by itself or hands it to the transport created for it.
\<close>

lemma mcp_serve_absent:
  assumes "sessions s = None" and "q_session_id req = Some s" and "s \<noteq> []"
    and "new_transport_action (sdk False)"
  shows "fst (snd (mcp_serve sessions d req fresh sdk)) = d"
    and "\<forall>res. snd (snd (mcp_serve sessions d req fresh sdk)) \<noteq> ToolReply res"
    and "q_pathname req \<noteq> ''/mcp''
           \<longrightarrow> snd (snd (mcp_serve sessions d req fresh sdk)) = Answered 404"
    and "q_pathname req = ''/mcp'' \<and> q_method req = ''DELETE''
           \<longrightarrow> snd (snd (mcp_serve sessions d req fresh sdk)) = Answered 204"
    and "q_pathname req = ''/mcp'' \<and> q_method req \<noteq> ''DELETE'' \<longrightarrow>
           (case sdk False of
              InitSession sid \<Rightarrow>
                snd (snd (mcp_serve sessions d req fresh sdk)) = SessionOpened sid
                \<and> fst (mcp_serve sessions d req fresh sdk) sid
                    = Some \<lparr>s_transport = fresh, s_agentId = agentIdFromUrl req\<rparr>
            | Refuse code \<Rightarrow>
                snd (snd (mcp_serve sessions d req fresh sdk)) = Answered code \<and> 400 \<le> code
            | _ \<Rightarrow> False)"
proof -
  have l: "live sessions req = False"
    using assms(1,2) by (simp add: live_def)
  show "fst (snd (mcp_serve sessions d req fresh sdk)) = d"
    using assms
    by (cases "sdk False")
       (simp_all add: mcp_serve_def l mcp_fetch_def Let_def new_transport_action_def)
  show "\<forall>res. snd (snd (mcp_serve sessions d req fresh sdk)) \<noteq> ToolReply res"
    using assms
    by (cases "sdk False")
       (simp_all add: mcp_serve_def l mcp_fetch_def Let_def new_transport_action_def)
  show "q_pathname req \<noteq> ''/mcp''
           \<longrightarrow> snd (snd (mcp_serve sessions d req fresh sdk)) = Answered 404"
    by (simp add: mcp_serve_def mcp_fetch_def Let_def)
  show "q_pathname req = ''/mcp'' \<and> q_method req = ''DELETE''
           \<longrightarrow> snd (snd (mcp_serve sessions d req fresh sdk)) = Answered 204"
    using assms(2,3) by (simp add: mcp_serve_def mcp_fetch_def Let_def)
  show "q_pathname req = ''/mcp'' \<and> q_method req \<noteq> ''DELETE'' \<longrightarrow>
           (case sdk False of
              InitSession sid \<Rightarrow>
                snd (snd (mcp_serve sessions d req fresh sdk)) = SessionOpened sid
                \<and> fst (mcp_serve sessions d req fresh sdk) sid
                    = Some \<lparr>s_transport = fresh, s_agentId = agentIdFromUrl req\<rparr>
            | Refuse code \<Rightarrow>
                snd (snd (mcp_serve sessions d req fresh sdk)) = Answered code \<and> 400 \<le> code
            | _ \<Rightarrow> False)"
    using assms
    by (cases "sdk False")
       (simp_all add: mcp_serve_def l mcp_fetch_def Let_def new_transport_action_def)
qed

text \<open>
  Claim C8, as the code has it. A \<^verbatim>\<open>DELETE\<close> request to \<^verbatim>\<open>/mcp\<close> that carries a
  session token is answered 204 and removes the token and the identity bound to it from
  the session table, leaving the other sessions and the store as they are. The token
  stays absent whatever requests to either port and transport closings follow, as long
  as no transport generates the same id again. A later request that carries the token
  runs no tool, and the store after it is the store before it: a \<^verbatim>\<open>DELETE\<close> is answered
  204 again and a request to another path 404; any other request is handed to the
  transport created for it, which by the SDK's contract for a transport without a
  session (the hypothesis on \<open>sdk False\<close>) either refuses it with an error status or, for
  an initialize request, opens a session under the id it generates, bound to the
  identity of that request's own \<^verbatim>\<open>agent_id\<close> parameter.
\<close>

theorem terminated_session:
  assumes "q_pathname del = ''/mcp''"
    and "q_method del = ''DELETE''"
    and "q_session_id del = Some s"
    and "s \<noteq> []"
    and "s \<notin> set (opened evs)"
    and "q_session_id req = Some s"
    and "new_transport_action (sdk False)"
  shows "mcp_serve sessions d del fresh sdk0 = (sessions(s := None), d, Answered 204)
       \<and> (let st = foldl server_step (sessions(s := None), d) evs;
              r = mcp_serve (fst st) (snd st) req fresh2 sdk
          in fst st s = None
           \<and> fst (snd r) = snd st
           \<and> (\<forall>res. snd (snd r) \<noteq> ToolReply res)
           \<and> (q_pathname req \<noteq> ''/mcp'' \<longrightarrow> snd (snd r) = Answered 404)
           \<and> (q_pathname req = ''/mcp'' \<and> q_method req = ''DELETE''
                \<longrightarrow> snd (snd r) = Answered 204)
           \<and> (q_pathname req = ''/mcp'' \<and> q_method req \<noteq> ''DELETE'' \<longrightarrow>
                (case sdk False of
                   InitSession sid \<Rightarrow>
                     snd (snd r) = SessionOpened sid
                     \<and> fst r sid = Some \<lparr>s_transport = fresh2, s_agentId = agentIdFromUrl req\<rparr>
                 | Refuse code \<Rightarrow> snd (snd r) = Answered code \<and> 400 \<le> code
                 | _ \<Rightarrow> False)))"
proof -
  have first: "mcp_serve sessions d del fresh sdk0 = (sessions(s := None), d, Answered 204)"
    using assms(1-4) by (simp add: mcp_serve_def mcp_fetch_def Let_def)
  define st where "st = foldl server_step (sessions(s := None), d) evs"
  have "fst (sessions(s := None), d) s = None"
    by simp
  then have gone: "fst st s = None"
    unfolding st_def using assms(5) by (rule server_steps_absent)
  note later = mcp_serve_absent [of "fst st" s req sdk "snd st" fresh2,
      OF gone assms(6) assms(4) assms(7)]
  from first gone later show ?thesis
    unfolding Let_def st_def [symmetric] by blast
qed

theorem terminated_session_witness:
  "new_transport_action (Refuse 400)
   \<and> ''s1'' \<notin> set (opened
        [McpRequest \<lparr>q_pathname = ''/mcp'', q_method = ''POST'', q_agent_id = Some ''a2'',
                     q_session_id = None\<rparr> 1 (\<lambda>l. InitSession ''s2''),
         RestRequest (PostComment ''t1'' (Some (Some ''hello again'')) ''c2'' 5),
         TransportClosed (Some ''s2'')])
   \<and> mcp_serve [''s1'' \<mapsto> \<lparr>s_transport = 0, s_agentId = ''a1''\<rparr>] db1
        \<lparr>q_pathname = ''/mcp'', q_method = ''DELETE'', q_agent_id = None,
         q_session_id = Some ''s1''\<rparr> 9 (\<lambda>l. NoTool)
      = ([''s1'' \<mapsto> \<lparr>s_transport = 0, s_agentId = ''a1''\<rparr>](''s1'' := None), db1, Answered 204)
   \<and> snd (snd (mcp_serve [''s1'' \<mapsto> \<lparr>s_transport = 0, s_agentId = ''a1''\<rparr>] db1
        \<lparr>q_pathname = ''/mcp'', q_method = ''POST'', q_agent_id = Some ''a1'',
         q_session_id = Some ''s1''\<rparr> 2
        (\<lambda>l. if l then RunTool (CallPostTaskResult (\<lambda>a. None) ''r4'' 10 11 ''c3'' 12
                                  ''t1'' ''report'' None)
              else Refuse 400)))
      = ToolReply (ResultText ''r4'' ''t1'' ''review'')
   \<and> (let st = foldl server_step
                 ([''s1'' \<mapsto> \<lparr>s_transport = 0, s_agentId = ''a1''\<rparr>](''s1'' := None), db1)
                 [McpRequest \<lparr>q_pathname = ''/mcp'', q_method = ''POST'',
                              q_agent_id = Some ''a2'', q_session_id = None\<rparr> 1
                    (\<lambda>l. InitSession ''s2''),
                  RestRequest (PostComment ''t1'' (Some (Some ''hello again'')) ''c2'' 5),
                  TransportClosed (Some ''s2'')];
           r = mcp_serve (fst st) (snd st)
                 \<lparr>q_pathname = ''/mcp'', q_method = ''POST'', q_agent_id = Some ''a1'',
                  q_session_id = Some ''s1''\<rparr> 2
                 (\<lambda>l. if l then RunTool (CallPostTaskResult (\<lambda>a. None) ''r4'' 10 11 ''c3'' 12
                                           ''t1'' ''report'' None)
                       else Refuse 400)
       in fst st ''s1'' = None \<and> fst (snd r) = snd st \<and> snd (snd r) = Answered 400)"
proof -
  let ?del = "\<lparr>q_pathname = ''/mcp'', q_method = ''DELETE'', q_agent_id = None,
               q_session_id = Some ''s1''\<rparr>"
  let ?req = "\<lparr>q_pathname = ''/mcp'', q_method = ''POST'', q_agent_id = Some ''a1'',
               q_session_id = Some ''s1''\<rparr>"
  let ?evs = "[McpRequest \<lparr>q_pathname = ''/mcp'', q_method = ''POST'',
                              q_agent_id = Some ''a2'', q_session_id = None\<rparr> 1
                    (\<lambda>l. InitSession ''s2''),
                  RestRequest (PostComment ''t1'' (Some (Some ''hello again'')) ''c2'' 5),
                  TransportClosed (Some ''s2'')]"
  let ?sdk = "\<lambda>l. if l then RunTool (CallPostTaskResult (\<lambda>a. None) ''r4'' 10 11 ''c3'' 12
                                           ''t1'' ''report'' None)
                       else Refuse 400"
  let ?tab = "[''s1'' \<mapsto> \<lparr>s_transport = 0, s_agentId = ''a1''\<rparr>]"
  let ?st = "foldl server_step (?tab(''s1'' := None), db1) ?evs"
  let ?r = "mcp_serve (fst ?st) (snd ?st) ?req 2 ?sdk"
  have h1: "q_pathname ?del = ''/mcp''" and h2: "q_method ?del = ''DELETE''"
    and h3: "q_session_id ?del = Some ''s1''" and h4: "''s1'' \<noteq> []"
    and h6: "q_session_id ?req = Some ''s1''"
    by simp_all
  have h5: "''s1'' \<notin> set (opened ?evs)"
    by (simp add: action_opens_def)
  have c: "new_transport_action (Refuse 400)"
    by (simp add: new_transport_action_def)
  have sdkF: "?sdk False = Refuse 400"
    by simp
  have h7: "new_transport_action (?sdk False)"
    unfolding sdkF by (rule c)
  note inst = terminated_session [where sdk = ?sdk and sessions = ?tab and d = db1
        and fresh = 9 and ?sdk0.0 = "\<lambda>l. NoTool" and ?fresh2.0 = 2,
      OF h1 h2 h3 h4 h5 h6 h7, unfolded Let_def]
  from inst have first: "mcp_serve ?tab db1 ?del 9 (\<lambda>l. NoTool)
      = (?tab(''s1'' := None), db1, Answered 204)"
    by (rule conjunct1)
  from inst have gone: "fst ?st ''s1'' = None"
    and same: "fst (snd ?r) = snd ?st"
    and post: "q_pathname ?req = ''/mcp'' \<and> q_method ?req \<noteq> ''DELETE'' \<longrightarrow>
                (case ?sdk False of
                   InitSession sid \<Rightarrow>
                     snd (snd ?r) = SessionOpened sid
                     \<and> fst ?r sid = Some \<lparr>s_transport = 2, s_agentId = agentIdFromUrl ?req\<rparr>
                 | Refuse code \<Rightarrow> snd (snd ?r) = Answered code \<and> 400 \<le> code
                 | _ \<Rightarrow> False)"
    by blast+
  have "q_pathname ?req = ''/mcp'' \<and> q_method ?req \<noteq> ''DELETE''"
    by simp
  with post have "case ?sdk False of
                   InitSession sid \<Rightarrow>
                     snd (snd ?r) = SessionOpened sid
                     \<and> fst ?r sid = Some \<lparr>s_transport = 2, s_agentId = agentIdFromUrl ?req\<rparr>
                 | Refuse code \<Rightarrow> snd (snd ?r) = Answered code \<and> 400 \<le> code
                 | _ \<Rightarrow> False"
    by (rule mp)
  then have refused: "snd (snd ?r) = Answered 400"
    by (simp only: sdkF transport_action.case)
  have l: "live ?tab ?req"
    by (simp add: live_def)
  have a: "getCallerAgentId (Some ''a1'') \<in> set (getTaskAssignees db1 ''t1'')"
    by (simp add: getCallerAgentId_def getTaskAssignees_db1)
  have r4: "''r4'' \<notin> set (map r_id (task_results db1))"
    and c3: "''c3'' \<notin> set (map c_id (task_comments db1))"
    by (simp_all add: result_ids_db1 comment_ids_db1)
  have tool: "snd (post_task_result db1 (Some ''a1'') (\<lambda>a. None) ''r4'' 10 11 ''c3'' 12 ''t1''
                     ''report'' None) = ResultText ''r4'' ''t1'' ''review''"
    unfolding post_task_result_assignee [OF getTask_db1 a r4 c3] by simp
  have before: "snd (snd (mcp_serve ?tab db1 ?req 2 ?sdk))
      = ToolReply (ResultText ''r4'' ''t1'' ''review'')"
    using tool by (auto simp: mcp_serve_def l mcp_fetch_def Let_def split: prod.splits)
  from c h5 first before gone same refused show ?thesis
    unfolding Let_def by blast
qed

text \<open>
  The claim as the specification words it fails: on the table with the one session
  \<open>s1\<close>, after the \<^verbatim>\<open>DELETE\<close> that terminates \<open>s1\<close>, a second \<^verbatim>\<open>DELETE\<close> that
  carries \<open>s1\<close> is answered 204, which is no rejection.
\<close>

theorem terminated_session_not_rejected:
  "snd (mcp_fetch
         (fst (mcp_fetch [''s1'' \<mapsto> \<lparr>s_transport = 0, s_agentId = ''a1''\<rparr>]
            \<lparr>q_pathname = ''/mcp'', q_method = ''DELETE'', q_agent_id = None,
             q_session_id = Some ''s1''\<rparr> 1 None))
         \<lparr>q_pathname = ''/mcp'', q_method = ''DELETE'', q_agent_id = None,
          q_session_id = Some ''s1''\<rparr> 2 None) = Response 204
   \<and> \<not> is_rejection (snd (mcp_fetch
         (fst (mcp_fetch [''s1'' \<mapsto> \<lparr>s_transport = 0, s_agentId = ''a1''\<rparr>]
            \<lparr>q_pathname = ''/mcp'', q_method = ''DELETE'', q_agent_id = None,
             q_session_id = Some ''s1''\<rparr> 1 None))
         \<lparr>q_pathname = ''/mcp'', q_method = ''DELETE'', q_agent_id = None,
          q_session_id = Some ''s1''\<rparr> 2 None))
   \<and> mcp_serve
        (fst (mcp_serve [''s1'' \<mapsto> \<lparr>s_transport = 0, s_agentId = ''a1''\<rparr>] db1
           \<lparr>q_pathname = ''/mcp'', q_method = ''DELETE'', q_agent_id = None,
            q_session_id = Some ''s1''\<rparr> 1 (\<lambda>l. Refuse 400)))
        db1
        \<lparr>q_pathname = ''/mcp'', q_method = ''DELETE'', q_agent_id = None,
         q_session_id = Some ''s1''\<rparr> 2 (\<lambda>l. Refuse 400)
      = ([''s1'' \<mapsto> \<lparr>s_transport = 0, s_agentId = ''a1''\<rparr>](''s1'' := None), db1, Answered 204)"
  by (simp add: mcp_fetch_def mcp_serve_def is_rejection_def Let_def)

end
